theory Spec2Isabelle
  imports Main "HOL-Library.Word"
begin

section \<open>The syntax trees consumed by the transpiler\<close>

text \<open>
  The transpiler works on the trees of Go's own parser (packages \<^verbatim>\<open>go/ast\<close> and
  \<^verbatim>\<open>go/token\<close>). The statement and expression interfaces are closed here into
  datatypes. An interface value of Go may be \<^verbatim>\<open>nil\<close>: the absent initializer of a
  \<^verbatim>\<open>for\<close>, the absent \<^verbatim>\<open>else\<close> of an \<^verbatim>\<open>if\<close>; that value is the
  constructor \<open>NilStmt\<close> (\<open>NilExpr\<close> for expressions). Node kinds the transpiler has
  no case for are kept with the name \<^verbatim>\<open>%T\<close> prints for them.
\<close>

datatype token =
    ASSIGN | DEFINE | ADD_ASSIGN | SUB_ASSIGN | INC | DEC
  | EQL | NEQ | LSS | LEQ | GTR | GEQ
  | ADD | SUB | MUL | QUO | REM | LAND | LOR | NOT
  | OtherToken string

datatype expr =
    NilExpr
  | Ident string
  | BasicLit string
  | BinaryExpr expr token expr
  | UnaryExpr token expr
  | ParenExpr expr
  | CallExpr expr "expr list"
  | IndexExpr expr expr
  | SelectorExpr expr string
  | OtherExpr string

datatype stmt =
    NilStmt
  | ForStmt stmt expr stmt "stmt list"
  | ExprStmt expr
  | IfStmt stmt expr "stmt list" stmt
  | AssignStmt "expr list" token "expr list"
  | ReturnStmt "expr list"
  | BlockStmt "stmt list"
  | IncDecStmt expr token
  | OtherStmt string

text \<open>
  \<open>ForStmt init cond post body\<close> and \<open>IfStmt init cond body else\<close> carry the statement
  list of their body (\<^verbatim>\<open>Body.List\<close>; the body of a parsed loop or conditional is
  always a block). What \<^verbatim>\<open>fmt.Sprintf("%T", x)\<close> prints for an expression:
\<close>

fun exprType :: "expr \<Rightarrow> string" where
  "exprType NilExpr = ''<nil>''"
| "exprType (Ident _) = ''*ast.Ident''"
| "exprType (BasicLit _) = ''*ast.BasicLit''"
| "exprType (BinaryExpr _ _ _) = ''*ast.BinaryExpr''"
| "exprType (UnaryExpr _ _) = ''*ast.UnaryExpr''"
| "exprType (ParenExpr _) = ''*ast.ParenExpr''"
| "exprType (CallExpr _ _) = ''*ast.CallExpr''"
| "exprType (IndexExpr _ _) = ''*ast.IndexExpr''"
| "exprType (SelectorExpr _ _) = ''*ast.SelectorExpr''"
| "exprType (OtherExpr t) = t"

section \<open>Operands, instructions and jump targets\<close>

text \<open>
  Instructions, jump instructions and temporaries are heap objects in the source, built
  with \<^verbatim>\<open>&T{...}\<close> and compared by address: a jump target names \<^emph>\<open>that\<close>
  instruction, not an instruction that looks like it. The model gives each such object
  the address it was allocated at (a \<open>ref\<close>), taken from a counter that every lowering
  function receives and returns.
\<close>

type_synonym ref = nat

datatype resolvable =
    Value string
  | NormalVariable string
  | DynamicVariable ref

datatype jump_target =
    StatementTarget ref
  | StatementJumpTarget bool ref

text \<open>
  \<open>StatementJumpTarget after statement\<close> is the struct with the fields \<^verbatim>\<open>After\<close> and
  \<^verbatim>\<open>Statement\<close>; \<open>StatementTarget r\<close> is an instruction stored directly in the
  \<^verbatim>\<open>JumpTarget\<close> field, as the loop does.
\<close>

datatype mlog_statement =
    MLOG ref string "resolvable list list"
  | MLOGJump ref string "resolvable list" jump_target
  | MLOGTrampolineBack ref

fun ref_of :: "mlog_statement \<Rightarrow> ref" where
  "ref_of (MLOG r _ _) = r"
| "ref_of (MLOGJump r _ _ _) = r"
| "ref_of (MLOGTrampolineBack r) = r"

fun setStatement :: "mlog_statement \<Rightarrow> ref \<Rightarrow> mlog_statement" where
  "setStatement (MLOGJump r comment condition (StatementJumpTarget after _)) s =
     MLOGJump r comment condition (StatementJumpTarget after s)"
| "setStatement m _ = m"

section \<open>Results: a value, a returned error, or a panic\<close>

datatype error =
    UnknownLeftSideExpressionType string
  | UnknownRightSideExpressionType string
  | JumpStatementCannotUseThisOperation
  | ForLoopCanOnlyHaveBinaryConditionalExpressions
  | OnlySingleValueReturnsAreSupported
  | UnknownReturnValueType string
  | StatementTypeNotSupported string
  | MismatchedVariableAssignmentSides
  | OnlyDirectAssignmentIsSupported
  | LeftSideVariableAssignmentCanOnlyContainIdentifications
  | ExpressionError string

datatype panic = TypeAssertionFailed | IndexOutOfRange

datatype 'a result = Ok 'a | Err error | Panic panic

fun andThen :: "'a result \<Rightarrow> ('a \<Rightarrow> 'b result) \<Rightarrow> 'b result" where
  "andThen (Ok x) f = f x"
| "andThen (Err e) f = Err e"
| "andThen (Panic p) f = Panic p"

section \<open>What the lowering takes from the rest of the package\<close>

record Options =
  Numbers :: bool
  Comments :: bool

text \<open>
  The operator table \<^verbatim>\<open>jumpOperators\<close>, the constant
  \<^verbatim>\<open>FunctionReturnVariable\<close> and the expression lowering \<^verbatim>\<open>expressionToMLOG\<close>
  are declared in files of the package that are not at hand; the lowering is
  parameterised by them. Expression lowering allocates instructions too, so it takes
  and returns the allocation counter.
\<close>

record collaborators =
  jumpOperators :: "token \<Rightarrow> string option"
  FunctionReturnVariable :: string
  expressionToMLOG ::
    "resolvable list \<Rightarrow> expr \<Rightarrow> Options \<Rightarrow> ref \<Rightarrow> (mlog_statement list \<times> ref) result"

section \<open>Statement lowering (statement.go)\<close>

text \<open>Lines 35--49: one side of the loop condition.\<close>

fun leftSideOf :: "expr \<Rightarrow> resolvable result" where
  "leftSideOf (BasicLit v) = Ok (Value v)"
| "leftSideOf (Ident name) = Ok (NormalVariable name)"
| "leftSideOf x = Err (UnknownLeftSideExpressionType (exprType x))"

fun rightSideOf :: "expr \<Rightarrow> resolvable result" where
  "rightSideOf (BasicLit v) = Ok (Value v)"
| "rightSideOf (Ident name) = Ok (NormalVariable name)"
| "rightSideOf y = Err (UnknownRightSideExpressionType (exprType y))"

text \<open>Lines 30--67: the condition of the jump that closes the loop.\<close>

fun loopCondition :: "collaborators \<Rightarrow> expr \<Rightarrow> resolvable list result" where
  "loopCondition c (BinaryExpr x op y) =
     (case jumpOperators c op of
        Some translatedOp \<Rightarrow>
          andThen (leftSideOf x) (\<lambda>leftSide.
          andThen (rightSideOf y) (\<lambda>rightSide.
          Ok [Value translatedOp, leftSide, rightSide]))
      | None \<Rightarrow> Err JumpStatementCannotUseThisOperation)"
| "loopCondition c cond = Err ForLoopCanOnlyHaveBinaryConditionalExpressions"

text \<open>Lines 276--278: the destinations of an assignment with a single source.\<close>

fun leftSideLoop :: "expr list \<Rightarrow> resolvable list result" where
  "leftSideLoop [] = Ok []"
| "leftSideLoop (Ident name # rest) =
     andThen (leftSideLoop rest) (\<lambda>leftSide. Ok (NormalVariable name # leftSide))"
| "leftSideLoop (lhs # rest) = Panic TypeAssertionFailed"

text \<open>Lines 289--303: the loop over the pairs of an assignment with as many sources as
  destinations; \<open>i\<close> is the index of the loop, \<open>mlog\<close> what it has appended so far.\<close>

fun assignLoop ::
  "collaborators \<Rightarrow> token \<Rightarrow> expr list \<Rightarrow> Options \<Rightarrow> nat \<Rightarrow> expr list \<Rightarrow>
   mlog_statement list \<Rightarrow> ref \<Rightarrow> (mlog_statement list \<times> ref) result" where
  "assignLoop c tok rhs options i [] mlog n = Ok (mlog, n)"
| "assignLoop c tok rhs options i (Ident name # rest) mlog n =
     (if tok \<noteq> ASSIGN \<and> tok \<noteq> DEFINE then Err OnlyDirectAssignmentIsSupported
      else if \<not> i < length rhs then Panic IndexOutOfRange
      else andThen (expressionToMLOG c [NormalVariable name] (rhs ! i) options n)
        (\<lambda>(exprMLOG, n').
          assignLoop c tok rhs options (Suc i) rest (mlog @ exprMLOG) n'))"
| "assignLoop c tok rhs options i (e # rest) mlog n =
     Err LeftSideVariableAssignmentCanOnlyContainIdentifications"

fun assignStmtToMLOG ::
  "collaborators \<Rightarrow> expr list \<Rightarrow> token \<Rightarrow> expr list \<Rightarrow> Options \<Rightarrow> ref \<Rightarrow>
   (mlog_statement list \<times> ref) result" where
  "assignStmtToMLOG c lhs tok rhs options n =
     (if length lhs \<noteq> length rhs then
        (if length rhs = 1 then
           andThen (leftSideLoop lhs) (\<lambda>leftSide.
           andThen (expressionToMLOG c leftSide (rhs ! 0) options n) (\<lambda>(exprMLOG, n').
           Ok ([] @ exprMLOG, n')))
         else Err MismatchedVariableAssignmentSides)
      else assignLoop c tok rhs options 0 lhs [] n)"

text \<open>Lines 196--228: the instructions that store the returned value.\<close>

fun returnValueToMLOG ::
  "collaborators \<Rightarrow> expr \<Rightarrow> Options \<Rightarrow> ref \<Rightarrow> (mlog_statement list \<times> ref) result" where
  "returnValueToMLOG c returnValue options n =
     andThen
       (case returnValue of
          Ident name \<Rightarrow> Ok (NormalVariable name, [], n)
        | BasicLit v \<Rightarrow> Ok (Value v, [], n)
        | NilExpr \<Rightarrow> Err (UnknownReturnValueType (exprType returnValue))
        | _ \<Rightarrow>
            (let dVar = DynamicVariable n in
             andThen (expressionToMLOG c [dVar] returnValue options (Suc n))
               (\<lambda>(instructions, n'). Ok (dVar, instructions, n'))))
       (\<lambda>(resultVar, results, n').
          Ok (results @
              [MLOG n' ''Set return data''
                 [[Value ''set'', Value (FunctionReturnVariable c), resultVar]]],
              Suc n'))"

text \<open>Lines 107--119: the operand an \<^verbatim>\<open>if\<close> tests.\<close>

fun ifCondition ::
  "collaborators \<Rightarrow> expr \<Rightarrow> Options \<Rightarrow> ref \<Rightarrow>
   (resolvable \<times> mlog_statement list \<times> ref) result" where
  "ifCondition c (Ident name) options n = Ok (NormalVariable name, [], n)"
| "ifCondition c cond options n =
     (let condVar = DynamicVariable n in
      andThen (expressionToMLOG c [condVar] cond options (Suc n))
        (\<lambda>(instructions, n'). Ok (condVar, instructions, n')))"

text \<open>
  \<^verbatim>\<open>statementToMLOG\<close>, case by case in the order of the type switch; \<open>blockLoop\<close> is
  the loop of lines 234--240. \<open>results\<close> is the slice the source appends to, and
  \<open>n\<close>, \<open>n1\<close>, \<open>n2\<close>, ... are the successive states of the allocation counter: every
  \<^verbatim>\<open>&MLOG{...}\<close>, \<^verbatim>\<open>&MLOGJump{...}\<close>, \<^verbatim>\<open>&MLOGTrampolineBack{}\<close> and
  \<^verbatim>\<open>&DynamicVariable{}\<close> takes the next address. A \<^verbatim>\<open>nil\<close> statement and a
  statement of any other kind reach the default arm. Indexing an empty slice (lines 82,
  136 and 171) and a failed unchecked type assertion (line 244) panic.

  The struct \<^verbatim>\<open>afterIfTarget\<close> (line 140) is referenced by the skip jump alone, which
  by then sits in \<open>results\<close> at the index \<open>skip\<close>; the assignment to its field
  \<^verbatim>\<open>Statement\<close> (line 175) is therefore the update of that jump in place.
\<close>

function statementToMLOG ::
    "collaborators \<Rightarrow> stmt \<Rightarrow> Options \<Rightarrow> ref \<Rightarrow> (mlog_statement list \<times> ref) result"
  and blockLoop ::
    "collaborators \<Rightarrow> stmt list \<Rightarrow> Options \<Rightarrow> mlog_statement list \<Rightarrow> ref \<Rightarrow>
     (mlog_statement list \<times> ref) result" where
  "statementToMLOG c (ForStmt init cond post body) options n =
     (if length body = 0 then Ok ([], n)
      else
        andThen (statementToMLOG c init options n) (\<lambda>(initMlog, n1).
        let results = [] @ initMlog in
        andThen (loopCondition c cond) (\<lambda>condition.
        let loopStartJump = n1 in
        andThen (statementToMLOG c (BlockStmt body) options (Suc n1)) (\<lambda>(bodyMLOG, n2).
        let results = results @ bodyMLOG in
        andThen (statementToMLOG c post options n2) (\<lambda>(instructions, n3).
        let results = results @ instructions in
        if \<not> 0 < length bodyMLOG then Panic IndexOutOfRange
        else
          Ok (results @
              [MLOGJump loopStartJump ''Jump to start of loop'' condition
                 (StatementTarget (ref_of (bodyMLOG ! 0)))],
              n3))))))"
| "statementToMLOG c (ExprStmt x) options n =
     andThen (expressionToMLOG c [] x options n) (\<lambda>(instructions, n').
     Ok ([] @ instructions, n'))"
| "statementToMLOG c (IfStmt init cond body els) options n =
     andThen (if init \<noteq> NilStmt then statementToMLOG c init options n else Ok ([], n))
       (\<lambda>(results, n1).
     andThen (ifCondition c cond options n1) (\<lambda>(condVar, instructions, n2).
     let results = results @ instructions in
     andThen (statementToMLOG c (BlockStmt body) options n2) (\<lambda>(blockInstructions, n3).
     if \<not> 0 < length blockInstructions then Panic IndexOutOfRange
     else
       let results = results @
             [MLOGJump n3 ''Jump to if block if true''
                [Value ''equal'', condVar, Value ''1'']
                (StatementJumpTarget False (ref_of (blockInstructions ! 0)))];
           afterIfTarget =
             StatementJumpTarget True
               (ref_of (blockInstructions ! (length blockInstructions - 1)));
           skip = length results;
           results = results @
             [MLOGJump (Suc n3) ''Jump to after if block'' [Value ''always'']
                afterIfTarget];
           results = results @ blockInstructions
       in
         if els \<noteq> NilStmt then
           andThen (statementToMLOG c els options (Suc (Suc n3)))
             (\<lambda>(elseInstructions, n4).
           if \<not> 0 < length elseInstructions then Panic IndexOutOfRange
           else
             let afterElseJump =
                   MLOGJump n4 ''Jump to after else block'' [Value ''always'']
                     (StatementJumpTarget True
                        (ref_of (elseInstructions ! (length elseInstructions - 1))));
                 results = results @ [afterElseJump];
                 results = results[skip := setStatement (results ! skip) (ref_of afterElseJump)];
                 results = results @ elseInstructions
             in Ok (results, Suc n4))
         else Ok (results, Suc (Suc n3)))))"
| "statementToMLOG c (AssignStmt lhs tok rhs) options n =
     andThen (assignStmtToMLOG c lhs tok rhs options n) (\<lambda>(assignMlog, n').
     Ok ([] @ assignMlog, n'))"
| "statementToMLOG c (ReturnStmt returnResults) options n =
     (if length returnResults > 1 then Err OnlySingleValueReturnsAreSupported
      else
        andThen
          (if length returnResults > 0
           then returnValueToMLOG c (returnResults ! 0) options n
           else Ok ([], n))
          (\<lambda>(results, n'). Ok (results @ [MLOGTrampolineBack n'], Suc n')))"
| "statementToMLOG c (BlockStmt list) options n = blockLoop c list options [] n"
| "statementToMLOG c (IncDecStmt x tok) options n =
     (case x of
        Ident ident \<Rightarrow>
          (let name = NormalVariable ident;
               op = (if tok = DEC then ''sub'' else ''add'')
           in Ok ([] @
                  [MLOG n ''Execute for loop post condition increment/decrement''
                     [[Value ''op'', Value op, name, name, Value ''1'']]],
                  Suc n))
      | _ \<Rightarrow> Panic TypeAssertionFailed)"
| "statementToMLOG c NilStmt options n = Err (StatementTypeNotSupported ''<nil>'')"
| "statementToMLOG c (OtherStmt t) options n = Err (StatementTypeNotSupported t)"
| "blockLoop c [] options results n = Ok (results, n)"
| "blockLoop c (s # rest) options results n =
     andThen (statementToMLOG c s options n) (\<lambda>(instructions, n').
     blockLoop c rest options (results @ instructions) n')"
  by pat_completeness auto
termination
  by (relation "measure (\<lambda>x. case x of
        Inl (c, s, options, n) \<Rightarrow>
          2 * size s + (case s of BlockStmt _ \<Rightarrow> 0 | _ \<Rightarrow> 1)
      | Inr (c, list, options, results, n) \<Rightarrow> 2 * size_list size list + 1)")
     (auto split: stmt.splits)

section \<open>Rendering (types.go)\<close>

text \<open>
  \<^verbatim>\<open>MLOGToString\<close> renders the rows of one instruction. The method
  \<^verbatim>\<open>GetValue\<close> of an operand and the method \<^verbatim>\<open>GetComment\<close> of an
  instruction are declared elsewhere in the package and are parameters here. The options
  travel in a \<^verbatim>\<open>context.Context\<close>; what matters of it is whether it holds a value
  of type \<^verbatim>\<open>Options\<close> under the key (the unchecked type assertion of lines 19 and
  23 panics when it does not). The line number is a Go \<^verbatim>\<open>int\<close>, a 64-bit
  two's-complement integer on the usual targets, and \<^verbatim>\<open>lineNumber++\<close> wraps
  around. Strings are sequences of characters here, and the widths of \<^verbatim>\<open>%3d\<close> and
  \<^verbatim>\<open>%-45s\<close> count characters.
\<close>

type_synonym go_int = "64 word"

fun digitsOf :: "nat \<Rightarrow> string" where
  "digitsOf n =
     (if n < 10 then [''0123456789'' ! n]
      else digitsOf (n div 10) @ [''0123456789'' ! (n mod 10)])"

text \<open>The equation of \<open>digitsOf\<close> rewrites its own right-hand side: it is used on demand.\<close>

declare digitsOf.simps [simp del]

definition formatInt :: "int \<Rightarrow> string" where
  "formatInt i = (if i < 0 then ''-'' @ digitsOf (nat (- i)) else digitsOf (nat i))"

definition padLeft :: "nat \<Rightarrow> string \<Rightarrow> string" where
  "padLeft w s = replicate (w - length s) (CHR '' '') @ s"

definition padRight :: "nat \<Rightarrow> string \<Rightarrow> string" where
  "padRight w s = s @ replicate (w - length s) (CHR '' '')"

text \<open>Lines 11--17: the operands of one row, separated by single spaces.\<close>

fun joinLine :: "(resolvable \<Rightarrow> string) \<Rightarrow> resolvable list \<Rightarrow> string \<Rightarrow> string" where
  "joinLine GetValue [] resultLine = resultLine"
| "joinLine GetValue (t # line) resultLine =
     joinLine GetValue line
       ((if resultLine \<noteq> '''' then resultLine @ '' '' else resultLine) @ GetValue t)"

text \<open>Lines 10--32: the loop over the rows; \<open>result\<close> is the text built so far.\<close>

fun renderLoop ::
  "(resolvable \<Rightarrow> string) \<Rightarrow> ('s \<Rightarrow> string) \<Rightarrow> Options option \<Rightarrow>
   resolvable list list \<Rightarrow> 's \<Rightarrow> go_int \<Rightarrow> string \<Rightarrow> string result" where
  "renderLoop GetValue GetComment ctx [] statement lineNumber result = Ok result"
| "renderLoop GetValue GetComment ctx (line # statements) statement lineNumber result =
     (let resultLine = joinLine GetValue line '''' in
      case ctx of
        None \<Rightarrow> Panic TypeAssertionFailed
      | Some options \<Rightarrow>
          (let result =
                 (if Numbers options
                  then result @ padLeft 3 (formatInt (sint lineNumber)) @ '': ''
                  else result);
               result =
                 (if Comments options
                  then result @ padRight 45 resultLine @ '' // '' @ GetComment statement
                  else result @ resultLine);
               result = result @ [CHR 0x0A]
           in renderLoop GetValue GetComment ctx statements statement (lineNumber + 1) result))"

definition MLOGToString ::
  "(resolvable \<Rightarrow> string) \<Rightarrow> ('s \<Rightarrow> string) \<Rightarrow> Options option \<Rightarrow>
   resolvable list list \<Rightarrow> 's \<Rightarrow> go_int \<Rightarrow> string result" where
  "MLOGToString GetValue GetComment ctx statements statement lineNumber =
     renderLoop GetValue GetComment ctx statements statement lineNumber ''''"

section \<open>The parts of the package described by the specification only\<close>

text \<open>
  Modelled from the spec: expression lowering (\<^verbatim>\<open>expressionToMLOG\<close>, which is not
  among the sources at hand). The specification gives its contract (destinations and an
  expression in, an instruction list or an error out) and one example: the assignment
  \<^verbatim>\<open>x := 5\<close> lowers to one instruction setting \<^verbatim>\<open>x\<close> to the literal
  \<^verbatim>\<open>5\<close>. The model covers that shape, a literal into one destination, and answers
  every other shape with an error of its own.
\<close>

fun specExpressionToMLOG ::
  "resolvable list \<Rightarrow> expr \<Rightarrow> Options \<Rightarrow> ref \<Rightarrow> (mlog_statement list \<times> ref) result" where
  "specExpressionToMLOG [dest] (BasicLit v) options n =
     Ok ([MLOG n '''' [[Value ''set'', dest, Value v]]], Suc n)"
| "specExpressionToMLOG dests e options n = Err (ExpressionError ''not described'')"

text \<open>
  Modelled from the spec: the collaborators of the lowering, for running it on concrete
  programs. The specification fixes the operator table as a finite map from comparison
  operators to condition tokens of the target without listing it; the table here
  holds the target's tokens for the six comparisons.
\<close>

definition specJumpOperators :: "token \<Rightarrow> string option" where
  "specJumpOperators =
     [EQL \<mapsto> ''equal'', NEQ \<mapsto> ''notEqual'', LSS \<mapsto> ''lessThan'',
      LEQ \<mapsto> ''lessThanEq'', GTR \<mapsto> ''greaterThan'', GEQ \<mapsto> ''greaterThanEq'']"

definition specCollaborators :: collaborators where
  "specCollaborators =
     \<lparr> jumpOperators = specJumpOperators,
       FunctionReturnVariable = ''@return'',
       expressionToMLOG = specExpressionToMLOG \<rparr>"

text \<open>
  Modelled from the spec: \<^verbatim>\<open>GetValue\<close>, the text of an operand. A literal renders
  as captured, a named variable as its name; the name of a temporary is generated from
  its identity.
\<close>

fun specGetValue :: "resolvable \<Rightarrow> string" where
  "specGetValue (Value v) = v"
| "specGetValue (NormalVariable name) = name"
| "specGetValue (DynamicVariable r) = ''_'' @ digitsOf r"

text \<open>
  Modelled from the spec: \<^verbatim>\<open>GetComment\<close>, the annotation of an instruction. A
  plain instruction and a jump carry one; the trampoline marker carries no operands and
  nothing is said of an annotation, so it has none here.
\<close>

fun specGetComment :: "mlog_statement \<Rightarrow> string" where
  "specGetComment (MLOG _ comment _) = comment"
| "specGetComment (MLOGJump _ comment _ _) = comment"
| "specGetComment (MLOGTrampolineBack _) = ''''"

text \<open>
  Modelled from the spec: linearization (section 4.3), which is not among the sources.
  Every physical row gets the next address, from a base on. A plain instruction
  contributes its rows and a jump one row; the rows of the trampoline marker are left
  to the calling convention, so its size is unknown here. A target without the after
  flag resolves to the address of the first row of the instruction it names, a target
  with the flag to one past its last row.
\<close>

fun Size :: "mlog_statement \<Rightarrow> nat option" where
  "Size (MLOG _ _ rows) = Some (length rows)"
| "Size (MLOGJump _ _ _ _) = Some 1"
| "Size (MLOGTrampolineBack _) = None"

fun outputRows :: "mlog_statement list \<Rightarrow> nat option" where
  "outputRows [] = Some 0"
| "outputRows (s # rest) =
     (case Size s of
        None \<Rightarrow> None
      | Some k \<Rightarrow> (case outputRows rest of None \<Rightarrow> None | Some m \<Rightarrow> Some (k + m)))"

fun positionOf :: "nat \<Rightarrow> mlog_statement list \<Rightarrow> ref \<Rightarrow> (nat \<times> mlog_statement) option" where
  "positionOf base [] r = None"
| "positionOf base (s # rest) r =
     (if ref_of s = r then Some (base, s)
      else (case Size s of None \<Rightarrow> None | Some k \<Rightarrow> positionOf (base + k) rest r))"

fun resolve :: "nat \<Rightarrow> mlog_statement list \<Rightarrow> jump_target \<Rightarrow> nat option" where
  "resolve base prog (StatementTarget r) = map_option fst (positionOf base prog r)"
| "resolve base prog (StatementJumpTarget after r) =
     (case positionOf base prog r of
        None \<Rightarrow> None
      | Some (a, s) \<Rightarrow>
          (if after then (case Size s of None \<Rightarrow> None | Some k \<Rightarrow> Some (a + k))
           else Some a))"

fun loweredRows :: "(mlog_statement list \<times> ref) result \<Rightarrow> nat option" where
  "loweredRows (Ok (prog, n)) = outputRows prog"
| "loweredRows r = None"

section \<open>Notions used to state the properties\<close>

text \<open>
  The lowerings of the children of a block, one list per child, each child starting
  from the allocation counter the one before it left.
\<close>

fun lowerEach ::
  "collaborators \<Rightarrow> stmt list \<Rightarrow> Options \<Rightarrow> ref \<Rightarrow> (mlog_statement list list \<times> ref) result" where
  "lowerEach c [] options n = Ok ([], n)"
| "lowerEach c (s # rest) options n =
     andThen (statementToMLOG c s options n) (\<lambda>(instructions, n').
     andThen (lowerEach c rest options n') (\<lambda>(others, n'').
     Ok (instructions # others, n'')))"

text \<open>A lowering that succeeded with a trampoline marker as its last instruction.\<close>

fun endsWithTrampoline :: "(mlog_statement list \<times> ref) result \<Rightarrow> bool" where
  "endsWithTrampoline (Ok (prog, n)) =
     (prog \<noteq> [] \<and> (case last prog of MLOGTrampolineBack _ \<Rightarrow> True | _ \<Rightarrow> False))"
| "endsWithTrampoline r = False"

text \<open>
  The returned value lowers: it is an identifier or a literal, or it is an expression
  that expression lowering accepts with the fresh temporary as destination.
\<close>

fun returnValueLowers :: "collaborators \<Rightarrow> expr \<Rightarrow> Options \<Rightarrow> ref \<Rightarrow> bool" where
  "returnValueLowers c (Ident name) options n = True"
| "returnValueLowers c (BasicLit v) options n = True"
| "returnValueLowers c NilExpr options n = False"
| "returnValueLowers c e options n =
     (case expressionToMLOG c [DynamicVariable n] e options (Suc n) of
        Ok _ \<Rightarrow> True
      | _ \<Rightarrow> False)"

text \<open>The text of one row after its address: the operands, the comment, the line end.\<close>

definition rowText ::
  "(resolvable \<Rightarrow> string) \<Rightarrow> ('s \<Rightarrow> string) \<Rightarrow> Options \<Rightarrow> 's \<Rightarrow> resolvable list \<Rightarrow> string" where
  "rowText GetValue GetComment options statement line =
     (if Comments options
      then padRight 45 (joinLine GetValue line '''') @ '' // '' @ GetComment statement
      else joinLine GetValue line '''') @ [CHR 0x0A]"

text \<open>
  The table of addresses: the rows of an instruction, each behind the address
  \<open>address k\<close> of its index \<open>k\<close>, printed as \<^verbatim>\<open>%3d\<close> prints it.
\<close>

definition addressed ::
  "(resolvable \<Rightarrow> string) \<Rightarrow> ('s \<Rightarrow> string) \<Rightarrow> Options \<Rightarrow> 's \<Rightarrow> resolvable list list \<Rightarrow>
   (nat \<Rightarrow> int) \<Rightarrow> string" where
  "addressed GetValue GetComment options statement statements address =
     concat (map (\<lambda>k. padLeft 3 (formatInt (address k)) @ '': '' @
                       rowText GetValue GetComment options statement (statements ! k))
               [0..<length statements])"

text \<open>An operand of a loop condition: a literal or a bare identifier.\<close>

fun operandOf :: "expr \<Rightarrow> resolvable option" where
  "operandOf (BasicLit v) = Some (Value v)"
| "operandOf (Ident name) = Some (NormalVariable name)"
| "operandOf e = None"

fun isIdent :: "expr \<Rightarrow> bool" where
  "isIdent (Ident name) = True"
| "isIdent e = False"

text \<open>
  The instructions of \<open>prog\<close> were allocated between the counters \<open>n\<close> and \<open>n'\<close>, no two
  of them at the same address.
\<close>

definition freshIn :: "ref \<Rightarrow> mlog_statement list \<Rightarrow> ref \<Rightarrow> bool" where
  "freshIn n prog n' =
     (n \<le> n' \<and> distinct (map ref_of prog) \<and>
      list_all (\<lambda>r. n \<le> r \<and> r < n') (map ref_of prog))"

text \<open>The instruction a jump target names.\<close>

fun targetRef :: "jump_target \<Rightarrow> ref" where
  "targetRef (StatementTarget r) = r"
| "targetRef (StatementJumpTarget after r) = r"

section \<open>Blocks\<close>

lemma blockLoop_lowerEach:
  "blockLoop c list options results n =
     andThen (lowerEach c list options n) (\<lambda>(others, n'). Ok (results @ concat others, n'))"
proof (induction list arbitrary: results n)
  case Nil
  show ?case by simp
next
  case (Cons s rest)
  show ?case
  proof (cases "statementToMLOG c s options n")
    case (Ok p)
    obtain instructions n' where p: "p = (instructions, n')" by (cases p)
    show ?thesis
      using Ok p Cons.IH [of "results @ instructions" n']
      by (cases "lowerEach c rest options n'") auto
  next
    case (Err e)
    then show ?thesis by simp
  next
    case (Panic p)
    then show ?thesis by simp
  qed
qed

text \<open>
  C4. A block whose children all lower lowers to the concatenation of what its children
  lower to, in their order (each child allocating after the one before it); the empty
  block lowers to the empty sequence.
\<close>

theorem block_is_concatenation:
  "(lowerEach c list options n = Ok (others, n') \<longrightarrow>
      statementToMLOG c (BlockStmt list) options n = Ok (concat others, n'))
   \<and> statementToMLOG c (BlockStmt []) options n = Ok ([], n)"
  by (simp add: blockLoop_lowerEach)

theorem block_is_concatenation_witness:
  "lowerEach specCollaborators
     [IncDecStmt (Ident ''x'') INC, AssignStmt [Ident ''y''] DEFINE [BasicLit ''1'']]
     \<lparr>Numbers = False, Comments = False\<rparr> 0
   = Ok ([[MLOG 0 ''Execute for loop post condition increment/decrement''
             [[Value ''op'', Value ''add'', NormalVariable ''x'', NormalVariable ''x'',
               Value ''1'']]],
          [MLOG 1 '''' [[Value ''set'', NormalVariable ''y'', Value ''1'']]]], 2)
   \<and> statementToMLOG specCollaborators
       (BlockStmt
          [IncDecStmt (Ident ''x'') INC, AssignStmt [Ident ''y''] DEFINE [BasicLit ''1'']])
       \<lparr>Numbers = False, Comments = False\<rparr> 0
     = Ok ([MLOG 0 ''Execute for loop post condition increment/decrement''
              [[Value ''op'', Value ''add'', NormalVariable ''x'', NormalVariable ''x'',
                Value ''1'']],
            MLOG 1 '''' [[Value ''set'', NormalVariable ''y'', Value ''1'']]], 2)"
  using block_is_concatenation [of specCollaborators
      "[IncDecStmt (Ident ''x'') INC, AssignStmt [Ident ''y''] DEFINE [BasicLit ''1'']]"
      "\<lparr>Numbers = False, Comments = False\<rparr>" 0
      "[[MLOG 0 ''Execute for loop post condition increment/decrement''
             [[Value ''op'', Value ''add'', NormalVariable ''x'', NormalVariable ''x'',
               Value ''1'']]],
          [MLOG 1 '''' [[Value ''set'', NormalVariable ''y'', Value ''1'']]]]" 2]
  by (simp add: specCollaborators_def Let_def numeral_2_eq_2)

section \<open>Loops\<close>

text \<open>
  C5. A loop whose body holds no statement lowers to the empty sequence, whatever its
  initializer, condition and post statement are.
\<close>

theorem for_empty_body:
  "statementToMLOG c (ForStmt init cond post []) options n = Ok ([], n)"
  by simp

lemma leftSideOf_operand: "operandOf x = Some leftSide \<Longrightarrow> leftSideOf x = Ok leftSide"
  by (cases x) auto

lemma rightSideOf_operand: "operandOf y = Some rightSide \<Longrightarrow> rightSideOf y = Ok rightSide"
  by (cases y) auto

text \<open>
  The shape of a lowered loop. A loop with a body of at least one statement, whose
  condition compares two operands (each a literal or a bare identifier) with an operator
  of the table, whose initializer, body and post statement lower, and whose body lowers
  to at least one instruction, lowers to the initializer's instructions, the body's, the post
  statement's and then one jump: its condition is the translated operator on the two
  operands, its target the first instruction of the lowered body. Nothing stands before
  the body that tests the condition, so the body runs once before the first test.
\<close>

theorem for_loop_shape:
  assumes "body \<noteq> []"
    and "jumpOperators c op = Some translatedOp"
    and "operandOf x = Some leftSide" and "operandOf y = Some rightSide"
    and "statementToMLOG c init options n = Ok (initMlog, na)"
    and "statementToMLOG c (BlockStmt body) options (Suc na) = Ok (bodyMLOG, nb)"
    and "bodyMLOG \<noteq> []"
    and "statementToMLOG c post options nb = Ok (postMlog, nc)"
  shows "statementToMLOG c (ForStmt init (BinaryExpr x op y) post body) options n =
     Ok (initMlog @ bodyMLOG @ postMlog @
         [MLOGJump na ''Jump to start of loop'' [Value translatedOp, leftSide, rightSide]
            (StatementTarget (ref_of (hd bodyMLOG)))],
         nc)"
proof -
  have cond: "loopCondition c (BinaryExpr x op y) = Ok [Value translatedOp, leftSide, rightSide]"
    using assms(2-4) by (simp add: leftSideOf_operand rightSideOf_operand)
  show ?thesis
    using assms(1) assms(5-8) cond
    by (simp del: loopCondition.simps statementToMLOG.simps(6) add: hd_conv_nth)
qed

theorem for_loop_shape_witness:
  "statementToMLOG specCollaborators
     (ForStmt (AssignStmt [Ident ''i''] DEFINE [BasicLit ''0''])
        (BinaryExpr (Ident ''i'') LSS (BasicLit ''10''))
        (IncDecStmt (Ident ''i'') INC)
        [IncDecStmt (Ident ''x'') DEC])
     \<lparr>Numbers = False, Comments = False\<rparr> 0
   = Ok ([MLOG 0 '''' [[Value ''set'', NormalVariable ''i'', Value ''0'']],
          MLOG 2 ''Execute for loop post condition increment/decrement''
            [[Value ''op'', Value ''sub'', NormalVariable ''x'', NormalVariable ''x'',
              Value ''1'']],
          MLOG 3 ''Execute for loop post condition increment/decrement''
            [[Value ''op'', Value ''add'', NormalVariable ''i'', NormalVariable ''i'',
              Value ''1'']],
          MLOGJump 1 ''Jump to start of loop''
            [Value ''lessThan'', NormalVariable ''i'', Value ''10'']
            (StatementTarget 2)],
         4)"
  using for_loop_shape [where c = specCollaborators
      and body = "[IncDecStmt (Ident ''x'') DEC]"
      and op = LSS and translatedOp = "''lessThan''"
      and x = "Ident ''i''" and leftSide = "NormalVariable ''i''"
      and y = "BasicLit ''10''" and rightSide = "Value ''10''"
      and init = "AssignStmt [Ident ''i''] DEFINE [BasicLit ''0'']"
      and post = "IncDecStmt (Ident ''i'') INC"
      and options = "\<lparr>Numbers = False, Comments = False\<rparr>" and n = 0
      and initMlog = "[MLOG 0 '''' [[Value ''set'', NormalVariable ''i'', Value ''0'']]]"
      and na = 1
      and bodyMLOG = "[MLOG 2 ''Execute for loop post condition increment/decrement''
            [[Value ''op'', Value ''sub'', NormalVariable ''x'', NormalVariable ''x'',
              Value ''1'']]]"
      and nb = 3
      and postMlog = "[MLOG 3 ''Execute for loop post condition increment/decrement''
            [[Value ''op'', Value ''add'', NormalVariable ''i'', NormalVariable ''i'',
              Value ''1'']]]"
      and nc = 4]
  by (simp add: specCollaborators_def specJumpOperators_def Let_def eval_nat_numeral)

text \<open>
  C1. On \<^verbatim>\<open>for i++; i < 10; i++ { {} }\<close>, a loop whose body holds one statement (an
  empty block) and whose condition, initializer and post statement are all accepted,
  the lowering produces no sequence: the guard of line 19 tests the statements of the
  body, the body lowers to no instruction, and the index \<^verbatim>\<open>bodyMLOG[0]\<close> of line
  82 panics.
\<close>

theorem for_loop_empty_lowered_body_panics:
  "statementToMLOG specCollaborators
     (ForStmt (IncDecStmt (Ident ''i'') INC)
        (BinaryExpr (Ident ''i'') LSS (BasicLit ''10''))
        (IncDecStmt (Ident ''i'') INC)
        [BlockStmt []])
     \<lparr>Numbers = False, Comments = False\<rparr> 0
   = Panic IndexOutOfRange"
  by (simp add: specCollaborators_def specJumpOperators_def Let_def)

text \<open>
  C10. A loop with a body of at least one statement and no initializer is refused with
  the error for an unsupported statement. A loop without a post statement is refused
  with that error when its initializer lowers, its condition is one the loop accepts
  and its body lowers: the absent clause is handed to statement lowering, which has no
  case for it.
\<close>

theorem for_absent_clause:
  "(body \<noteq> [] \<longrightarrow>
      statementToMLOG c (ForStmt NilStmt cond post body) options n
        = Err (StatementTypeNotSupported ''<nil>''))
   \<and> (body \<noteq> [] \<and> statementToMLOG c init options n = Ok (initMlog, na)
        \<and> loopCondition c cond = Ok condition
        \<and> statementToMLOG c (BlockStmt body) options (Suc na) = Ok (bodyMLOG, nb) \<longrightarrow>
      statementToMLOG c (ForStmt init cond NilStmt body) options n
        = Err (StatementTypeNotSupported ''<nil>''))"
  by (simp del: loopCondition.simps statementToMLOG.simps(6))

theorem for_absent_clause_witness:
  "statementToMLOG specCollaborators
     (ForStmt NilStmt (BinaryExpr (Ident ''i'') LSS (BasicLit ''10'')) NilStmt
        [IncDecStmt (Ident ''i'') INC])
     \<lparr>Numbers = False, Comments = False\<rparr> 0
   = Err (StatementTypeNotSupported ''<nil>'')
   \<and> statementToMLOG specCollaborators
     (ForStmt (IncDecStmt (Ident ''i'') INC) (BinaryExpr (Ident ''i'') LSS (BasicLit ''10''))
        NilStmt [IncDecStmt (Ident ''x'') INC])
     \<lparr>Numbers = False, Comments = False\<rparr> 0
   = Err (StatementTypeNotSupported ''<nil>'')"
  using for_absent_clause [where c = specCollaborators
      and body = "[IncDecStmt (Ident ''i'') INC]"
      and cond = "BinaryExpr (Ident ''i'') LSS (BasicLit ''10'')"
      and post = NilStmt
      and options = "\<lparr>Numbers = False, Comments = False\<rparr>" and n = 0]
    for_absent_clause [where c = specCollaborators
      and body = "[IncDecStmt (Ident ''x'') INC]"
      and cond = "BinaryExpr (Ident ''i'') LSS (BasicLit ''10'')"
      and init = "IncDecStmt (Ident ''i'') INC"
      and options = "\<lparr>Numbers = False, Comments = False\<rparr>" and n = 0
      and initMlog = "[MLOG 0 ''Execute for loop post condition increment/decrement''
            [[Value ''op'', Value ''add'', NormalVariable ''i'', NormalVariable ''i'',
              Value ''1'']]]"
      and na = 1
      and condition = "[Value ''lessThan'', NormalVariable ''i'', Value ''10'']"
      and bodyMLOG = "[MLOG 2 ''Execute for loop post condition increment/decrement''
            [[Value ''op'', Value ''add'', NormalVariable ''x'', NormalVariable ''x'',
              Value ''1'']]]"
      and nb = 3]
  by (simp add: specCollaborators_def specJumpOperators_def Let_def eval_nat_numeral)

theorem for_absent_post_counterexample:
  "statementToMLOG specCollaborators
     (ForStmt (IncDecStmt (Ident ''i'') INC) NilExpr NilStmt [IncDecStmt (Ident ''x'') INC])
     \<lparr>Numbers = False, Comments = False\<rparr> 0
   = Err ForLoopCanOnlyHaveBinaryConditionalExpressions"
  by (simp add: Let_def)

section \<open>Conditionals\<close>

lemma retarget_skip_jump:
  "(before @ [MLOGJump r comment condition (StatementJumpTarget after old)] @ rest)
      [length before :=
         setStatement
           ((before @ [MLOGJump r comment condition (StatementJumpTarget after old)] @ rest)
              ! length before)
           new]
   = before @ [MLOGJump r comment condition (StatementJumpTarget after new)] @ rest"
  by (simp add: list_update_append nth_append)

text \<open>
  C3. A conditional with an else branch, both branches lowering to at least one
  instruction, lowers to (after the instructions of its initializer and of its
  condition): the jump taken when the condition holds, to the first instruction of the
  then block; the skip jump; the then block; an unconditional jump to the position after
  the last instruction of the else block; the else block. The skip jump names that
  unconditional jump with the after flag, the position where the else block begins.
\<close>

theorem if_else_shape:
  assumes "els \<noteq> NilStmt"
    and "(if init \<noteq> NilStmt then statementToMLOG c init options n else Ok ([], n))
           = Ok (initMlog, na)"
    and "ifCondition c cond options na = Ok (condVar, condMlog, nb)"
    and "statementToMLOG c (BlockStmt body) options nb = Ok (thenMlog, nc)"
    and "thenMlog \<noteq> []"
    and "statementToMLOG c els options (Suc (Suc nc)) = Ok (elseMlog, nd)"
    and "elseMlog \<noteq> []"
  shows "statementToMLOG c (IfStmt init cond body els) options n =
     Ok (initMlog @ condMlog @
         [MLOGJump nc ''Jump to if block if true'' [Value ''equal'', condVar, Value ''1'']
            (StatementJumpTarget False (ref_of (hd thenMlog))),
          MLOGJump (Suc nc) ''Jump to after if block'' [Value ''always'']
            (StatementJumpTarget True nd)] @
         thenMlog @
         [MLOGJump nd ''Jump to after else block'' [Value ''always'']
            (StatementJumpTarget True (ref_of (last elseMlog)))] @
         elseMlog,
         Suc nd)"
proof -
  let ?before = "(initMlog @ condMlog) @
      [MLOGJump nc ''Jump to if block if true'' [Value ''equal'', condVar, Value ''1'']
         (StatementJumpTarget False (ref_of (hd thenMlog)))]"
  let ?afterElseJump = "MLOGJump nd ''Jump to after else block'' [Value ''always'']
      (StatementJumpTarget True (ref_of (last elseMlog)))"
  note retarget = retarget_skip_jump [of ?before "Suc nc" "''Jump to after if block''"
      "[Value ''always'']" True "ref_of (last thenMlog)" "thenMlog @ [?afterElseJump]" nd]
  show ?thesis
    using assms retarget
    by (simp del: statementToMLOG.simps(6) ifCondition.simps
          add: Let_def hd_conv_nth last_conv_nth)
qed

theorem if_else_shape_witness:
  "statementToMLOG specCollaborators
     (IfStmt NilStmt (Ident ''x'')
        [AssignStmt [Ident ''y''] DEFINE [BasicLit ''1'']]
        (BlockStmt [IncDecStmt (Ident ''z'') DEC]))
     \<lparr>Numbers = False, Comments = False\<rparr> 0
   = Ok ([MLOGJump 1 ''Jump to if block if true''
            [Value ''equal'', NormalVariable ''x'', Value ''1''] (StatementJumpTarget False 0),
          MLOGJump 2 ''Jump to after if block'' [Value ''always''] (StatementJumpTarget True 4),
          MLOG 0 '''' [[Value ''set'', NormalVariable ''y'', Value ''1'']],
          MLOGJump 4 ''Jump to after else block'' [Value ''always'']
            (StatementJumpTarget True 3),
          MLOG 3 ''Execute for loop post condition increment/decrement''
            [[Value ''op'', Value ''sub'', NormalVariable ''z'', NormalVariable ''z'',
              Value ''1'']]],
         5)"
  using if_else_shape [where c = specCollaborators
      and els = "BlockStmt [IncDecStmt (Ident ''z'') DEC]"
      and init = NilStmt and cond = "Ident ''x''"
      and body = "[AssignStmt [Ident ''y''] DEFINE [BasicLit ''1'']]"
      and options = "\<lparr>Numbers = False, Comments = False\<rparr>" and n = 0
      and initMlog = "[]" and na = 0
      and condVar = "NormalVariable ''x''" and condMlog = "[]" and nb = 0
      and thenMlog = "[MLOG 0 '''' [[Value ''set'', NormalVariable ''y'', Value ''1'']]]"
      and nc = 1
      and elseMlog = "[MLOG 3 ''Execute for loop post condition increment/decrement''
            [[Value ''op'', Value ''sub'', NormalVariable ''z'', NormalVariable ''z'',
              Value ''1'']]]"
      and nd = 4]
  by (simp add: specCollaborators_def Let_def eval_nat_numeral)

text \<open>
  C2. With the expression lowering and the linearization the specification describes,
  \<^verbatim>\<open>if x { y := 1 }\<close> lowers to three instructions of one row each, in this order:
  the conditional jump, whose target is the block's instruction; the skip jump; the
  block's instruction. The conditional jump resolves to the address of the block's
  instruction (two rows after the base) and the skip jump to the address right after it
  (three rows after the base).
\<close>

theorem if_without_else_example:
  "statementToMLOG specCollaborators
     (IfStmt NilStmt (Ident ''x'')
        [AssignStmt [Ident ''y''] DEFINE [BasicLit ''1'']] NilStmt) options n
   = Ok ([MLOGJump (Suc n) ''Jump to if block if true''
            [Value ''equal'', NormalVariable ''x'', Value ''1''] (StatementJumpTarget False n),
          MLOGJump (Suc (Suc n)) ''Jump to after if block'' [Value ''always'']
            (StatementJumpTarget True n),
          MLOG n '''' [[Value ''set'', NormalVariable ''y'', Value ''1'']]],
         Suc (Suc (Suc n)))
   \<and> loweredRows (statementToMLOG specCollaborators
        (IfStmt NilStmt (Ident ''x'')
           [AssignStmt [Ident ''y''] DEFINE [BasicLit ''1'']] NilStmt) options n) = Some 3
   \<and> resolve base
        [MLOGJump (Suc n) ''Jump to if block if true''
            [Value ''equal'', NormalVariable ''x'', Value ''1''] (StatementJumpTarget False n),
          MLOGJump (Suc (Suc n)) ''Jump to after if block'' [Value ''always'']
            (StatementJumpTarget True n),
          MLOG n '''' [[Value ''set'', NormalVariable ''y'', Value ''1'']]]
        (StatementJumpTarget False n) = Some (base + 2)
   \<and> resolve base
        [MLOGJump (Suc n) ''Jump to if block if true''
            [Value ''equal'', NormalVariable ''x'', Value ''1''] (StatementJumpTarget False n),
          MLOGJump (Suc (Suc n)) ''Jump to after if block'' [Value ''always'']
            (StatementJumpTarget True n),
          MLOG n '''' [[Value ''set'', NormalVariable ''y'', Value ''1'']]]
        (StatementJumpTarget True n) = Some (base + 3)"
  by (simp add: specCollaborators_def)

theorem if_without_else_rows_counterexample:
  "loweredRows (statementToMLOG specCollaborators
        (IfStmt NilStmt (Ident ''x'')
           [AssignStmt [Ident ''y''] DEFINE [BasicLit ''1'']] NilStmt)
        \<lparr>Numbers = False, Comments = False\<rparr> 0) = Some 3
   \<and> loweredRows (statementToMLOG specCollaborators
        (IfStmt NilStmt (Ident ''x'')
           [AssignStmt [Ident ''y''] DEFINE [BasicLit ''1'']] NilStmt)
        \<lparr>Numbers = False, Comments = False\<rparr> 0) \<noteq> Some 4"
  by (simp add: specCollaborators_def)

section \<open>Returns\<close>

text \<open>
  C6. A return of more than one value is refused with an error. A return of no value,
  and a return of one value that lowers, lower successfully to a sequence whose last
  instruction is the trampoline marker.
\<close>

theorem return_lowering:
  "(1 < length returnResults \<longrightarrow>
      statementToMLOG c (ReturnStmt returnResults) options n
        = Err OnlySingleValueReturnsAreSupported)
   \<and> endsWithTrampoline (statementToMLOG c (ReturnStmt []) options n)
   \<and> (returnValueLowers c v options n \<longrightarrow>
        endsWithTrampoline (statementToMLOG c (ReturnStmt [v]) options n))"
proof (intro conjI impI)
  assume "1 < length returnResults"
  then show "statementToMLOG c (ReturnStmt returnResults) options n
      = Err OnlySingleValueReturnsAreSupported"
    by simp
next
  show "endsWithTrampoline (statementToMLOG c (ReturnStmt []) options n)"
    by simp
next
  assume "returnValueLowers c v options n"
  then show "endsWithTrampoline (statementToMLOG c (ReturnStmt [v]) options n)"
    by (cases v) (auto split: result.splits)
qed

theorem return_lowering_witness:
  "statementToMLOG specCollaborators (ReturnStmt [Ident ''a'', Ident ''b''])
     \<lparr>Numbers = False, Comments = False\<rparr> 0 = Err OnlySingleValueReturnsAreSupported
   \<and> returnValueLowers specCollaborators (Ident ''a'') \<lparr>Numbers = False, Comments = False\<rparr> 0
   \<and> statementToMLOG specCollaborators (ReturnStmt [Ident ''a''])
       \<lparr>Numbers = False, Comments = False\<rparr> 0
     = Ok ([MLOG 0 ''Set return data''
              [[Value ''set'', Value ''@return'', NormalVariable ''a'']],
            MLOGTrampolineBack 1], 2)
   \<and> endsWithTrampoline (statementToMLOG specCollaborators (ReturnStmt [Ident ''a''])
       \<lparr>Numbers = False, Comments = False\<rparr> 0)"
  using return_lowering [of "[Ident ''a'', Ident ''b'']" specCollaborators
      "\<lparr>Numbers = False, Comments = False\<rparr>" 0 "Ident ''a''"]
  by (simp add: specCollaborators_def eval_nat_numeral)

section \<open>Increment and decrement\<close>

lemma incdec_identifier:
  "statementToMLOG c (IncDecStmt (Ident name) tok) options n =
     Ok ([MLOG n ''Execute for loop post condition increment/decrement''
            [[Value ''op'', Value (if tok = DEC then ''sub'' else ''add''),
              NormalVariable name, NormalVariable name, Value ''1'']]],
         Suc n)"
  by (simp add: Let_def)

lemma incdec_other_operand:
  "\<not> isIdent x \<Longrightarrow> statementToMLOG c (IncDecStmt x tok) options n = Panic TypeAssertionFailed"
  by (cases x) simp_all

text \<open>
  C7. On \<^verbatim>\<open>a[0]++\<close>, an increment whose operand is not a bare identifier, the
  lowering does not return an error: the unchecked type assertion of line 244 panics.
\<close>

theorem incdec_index_operand_panics:
  "statementToMLOG c (IncDecStmt (IndexExpr (Ident ''a'') (BasicLit ''0'')) INC) options n
     = Panic TypeAssertionFailed"
  by simp

section \<open>Assignments\<close>

lemma assign_count_mismatch:
  "length lhs \<noteq> length rhs \<Longrightarrow> length rhs \<noteq> 1 \<Longrightarrow>
   assignStmtToMLOG c lhs tok rhs options n = Err MismatchedVariableAssignmentSides"
  by simp

lemma assignLoop_other_destination:
  assumes "\<not> list_all isIdent lhs"
    and "i + length lhs \<le> length rhs"
    and "\<And>dests e opts m p. expressionToMLOG c dests e opts m \<noteq> Panic p"
  shows "\<exists>e. assignLoop c tok rhs options i lhs mlog n = Err e"
  using assms(1,2)
proof (induction lhs arbitrary: i mlog n)
  case Nil
  then show ?case by simp
next
  case (Cons d rest)
  show ?case
  proof (cases d)
    case (Ident name)
    show ?thesis
    proof (cases "tok \<noteq> ASSIGN \<and> tok \<noteq> DEFINE")
      case True
      with Ident show ?thesis by simp
    next
      case False
      have inRange: "i < length rhs" using Cons.prems(2) by simp
      have rest: "\<not> list_all isIdent rest" using Cons.prems(1) Ident by simp
      have len: "Suc i + length rest \<le> length rhs" using Cons.prems(2) by simp
      show ?thesis
      proof (cases "expressionToMLOG c [NormalVariable name] (rhs ! i) options n")
        case (Ok r)
        obtain exprMLOG n' where r: "r = (exprMLOG, n')" by (cases r)
        from Cons.IH [OF rest len, of "mlog @ exprMLOG" n']
        show ?thesis using Ident False inRange Ok r by simp
      next
        case (Err e)
        then show ?thesis using Ident False inRange by simp
      next
        case (Panic p)
        then show ?thesis using assms(3) by simp
      qed
    qed
  qed simp_all
qed

lemma assign_equal_counts_other_destination:
  assumes "length lhs = length rhs" and "\<not> list_all isIdent lhs"
    and "\<And>dests e opts m p. expressionToMLOG c dests e opts m \<noteq> Panic p"
  shows "\<exists>e. assignStmtToMLOG c lhs tok rhs options n = Err e"
  using assignLoop_other_destination [OF assms(2) _ assms(3), of 0 rhs tok options "[]" n] assms(1)
  by simp

text \<open>
  C8. On \<^verbatim>\<open>a[0], b = f()\<close>, an assignment of one source to two destinations of
  which the first is not a bare identifier, the lowering does not return an error: the
  unchecked type assertion of line 277 panics.
\<close>

theorem assign_single_source_index_destination_panics:
  "assignStmtToMLOG c [IndexExpr (Ident ''a'') (BasicLit ''0''), Ident ''b''] ASSIGN
     [CallExpr (Ident ''f'') []] options n
   = Panic TypeAssertionFailed"
  by simp

section \<open>Addresses in the rendered text\<close>

lemma addressed_Nil: "addressed GetValue GetComment options statement [] address = []"
  by (simp add: addressed_def)

lemma addressed_Cons:
  "addressed GetValue GetComment options statement (line # statements) address =
     padLeft 3 (formatInt (address 0)) @ '': '' @
     rowText GetValue GetComment options statement line @
     addressed GetValue GetComment options statement statements (\<lambda>k. address (Suc k))"
proof -
  have "[0..<length (line # statements)] = 0 # map Suc [0..<length statements]"
    by (simp add: upt_conv_Cons map_Suc_upt del: upt_Suc)
  then show ?thesis
    by (simp add: addressed_def comp_def)
qed

lemma renderLoop_numbered:
  "Numbers options \<Longrightarrow>
   renderLoop GetValue GetComment (Some options) statements statement lineNumber result =
     Ok (result @ addressed GetValue GetComment options statement statements
                    (\<lambda>k. sint (lineNumber + of_nat k)))"
proof (induction statements arbitrary: lineNumber result)
  case Nil
  show ?case by (simp add: addressed_Nil)
next
  case (Cons line statements)
  have shift: "\<And>k. lineNumber + 1 + of_nat k = lineNumber + of_nat (Suc k)"
    by simp
  show ?case
    using Cons.prems
    by (cases "Comments options")
       (simp_all add: Cons.IH [OF Cons.prems] addressed_Cons rowText_def shift
          del: of_nat_Suc)
qed

lemma sint_no_wrap:
  fixes w :: go_int
  assumes "sint w + int k < 2 ^ 63"
  shows "sint (w + of_nat k) = sint w + int k"
proof -
  have "w + of_nat k = word_of_int (sint w + int k)"
    by simp
  then have "sint (w + of_nat k) = signed_take_bit 63 (sint w + int k)"
    by (simp only: sint_sbintrunc') simp
  moreover have "- (2 ^ 63) \<le> sint w + int k"
    using sint_ge [of w] by simp
  ultimately show ?thesis
    using assms by (simp add: signed_take_bit_int_eq_self)
qed

text \<open>
  C9. With the address toggle on, the text of an instruction is its rows in order, row
  \<open>k\<close> behind the address \<open>lineNumber + k\<close> computed in the 64-bit integers of the
  program; as long as the base plus the number of rows does not pass the largest such
  integer, these are the integers \<open>base\<close>, \<open>base + 1\<close>, \<open>base + 2\<close> and so on, one more
  per row.
\<close>

theorem addresses_count_rows:
  assumes "Numbers options"
  shows "MLOGToString GetValue GetComment (Some options) statements statement lineNumber =
           Ok (addressed GetValue GetComment options statement statements
                 (\<lambda>k. sint (lineNumber + of_nat k)))
         \<and> (sint lineNumber + int (length statements) \<le> 2 ^ 63 \<longrightarrow>
            MLOGToString GetValue GetComment (Some options) statements statement lineNumber =
              Ok (addressed GetValue GetComment options statement statements
                    (\<lambda>k. sint lineNumber + int k)))"
proof -
  have general:
    "MLOGToString GetValue GetComment (Some options) statements statement lineNumber =
       Ok (addressed GetValue GetComment options statement statements
             (\<lambda>k. sint (lineNumber + of_nat k)))"
    using renderLoop_numbered [OF assms, of GetValue GetComment statements statement
        lineNumber "[]"]
    by (simp add: MLOGToString_def)
  have "addressed GetValue GetComment options statement statements
          (\<lambda>k. sint (lineNumber + of_nat k))
        = addressed GetValue GetComment options statement statements
            (\<lambda>k. sint lineNumber + int k)"
    if fits: "sint lineNumber + int (length statements) \<le> 2 ^ 63"
  proof -
    have "sint (lineNumber + of_nat k) = sint lineNumber + int k"
      if "k < length statements" for k
      using that fits by (intro sint_no_wrap) linarith
    then show ?thesis
      unfolding addressed_def by (intro arg_cong [where f = concat] map_cong) auto
  qed
  with general show ?thesis by simp
qed

theorem addresses_count_rows_witness:
  "Numbers \<lparr>Numbers = True, Comments = False\<rparr>
   \<and> sint (7 :: go_int) + int (length [[Value ''a'', NormalVariable ''x''], [Value ''b'']])
       \<le> 2 ^ 63
   \<and> MLOGToString specGetValue specGetComment (Some \<lparr>Numbers = True, Comments = False\<rparr>)
       [[Value ''a'', NormalVariable ''x''], [Value ''b'']] (MLOGTrampolineBack 0) 7
     = Ok (''  7: a x'' @ [CHR 0x0A] @ ''  8: b'' @ [CHR 0x0A])"
  using addresses_count_rows [of "\<lparr>Numbers = True, Comments = False\<rparr>" specGetValue
      specGetComment "[[Value ''a'', NormalVariable ''x''], [Value ''b'']]"
      "MLOGTrampolineBack 0" 7]
  by (simp add: addressed_def rowText_def formatInt_def padLeft_def digitsOf.simps
        numeral_2_eq_2)

theorem addresses_wrap_counterexample:
  "MLOGToString specGetValue specGetComment (Some \<lparr>Numbers = True, Comments = False\<rparr>)
     [[Value ''a''], [Value ''b'']] (MLOGTrampolineBack 0) 9223372036854775807
   = Ok (''9223372036854775807: a'' @ [CHR 0x0A] @ ''-9223372036854775808: b'' @ [CHR 0x0A])"
  by (simp add: MLOGToString_def formatInt_def padLeft_def digitsOf.simps)

section \<open>Allocation: every instruction has its own address\<close>

text \<open>
  A jump target names an instruction by its address, so the lowering has to hand out
  every address once. It does, as long as expression lowering does: the instructions of
  a successful lowering lie between the counter it received and the counter it returns,
  and no two of them share an address. The two lemmas on what a successful loop or
  conditional must have gone through come first.
\<close>

lemma andThen_eq_Ok: "(andThen r f = Ok y) = (\<exists>x. r = Ok x \<and> f x = Ok y)"
  by (cases r) auto

lemma freshIn_Nil: "n \<le> n' \<Longrightarrow> freshIn n [] n'"
  by (simp add: freshIn_def)

lemma freshIn_single: "ref_of s = n \<Longrightarrow> freshIn n [s] (Suc n)"
  by (simp add: freshIn_def)

lemma freshIn_widen: "freshIn n prog n' \<Longrightarrow> k \<le> n \<Longrightarrow> n' \<le> k' \<Longrightarrow> freshIn k prog k'"
  by (auto simp: freshIn_def list_all_iff)

lemma freshIn_append:
  "freshIn n p m \<Longrightarrow> freshIn m q k \<Longrightarrow> freshIn n (p @ q) k"
  by (fastforce simp: freshIn_def list_all_iff)

lemma freshIn_append_before:
  "freshIn n p m \<Longrightarrow> freshIn m q k \<Longrightarrow> freshIn n (q @ p) k"
  by (fastforce simp: freshIn_def list_all_iff)

lemma for_lowering_cases:
  assumes "statementToMLOG c (ForStmt init cond post body) options n = Ok (prog, n')"
    and "body \<noteq> []"
  shows "\<exists>initMlog na condition bodyMLOG nb postMlog.
    statementToMLOG c init options n = Ok (initMlog, na) \<and>
    loopCondition c cond = Ok condition \<and>
    statementToMLOG c (BlockStmt body) options (Suc na) = Ok (bodyMLOG, nb) \<and>
    bodyMLOG \<noteq> [] \<and>
    statementToMLOG c post options nb = Ok (postMlog, n') \<and>
    prog = initMlog @ bodyMLOG @ postMlog @
       [MLOGJump na ''Jump to start of loop'' condition
          (StatementTarget (ref_of (hd bodyMLOG)))]"
  using assms
  by (auto simp: andThen_eq_Ok Let_def hd_conv_nth split: if_split_asm
           simp del: loopCondition.simps statementToMLOG.simps(6))

lemma if_lowering_cases:
  assumes "statementToMLOG c (IfStmt init cond body els) options n = Ok (prog, n')"
  shows "\<exists>initMlog na condVar condMlog nb thenMlog nc.
    (if init \<noteq> NilStmt then statementToMLOG c init options n else Ok ([], n))
       = Ok (initMlog, na) \<and>
    ifCondition c cond options na = Ok (condVar, condMlog, nb) \<and>
    statementToMLOG c (BlockStmt body) options nb = Ok (thenMlog, nc) \<and>
    thenMlog \<noteq> [] \<and>
    (if els = NilStmt
     then prog = initMlog @ condMlog @
            [MLOGJump nc ''Jump to if block if true'' [Value ''equal'', condVar, Value ''1'']
               (StatementJumpTarget False (ref_of (hd thenMlog))),
             MLOGJump (Suc nc) ''Jump to after if block'' [Value ''always'']
               (StatementJumpTarget True (ref_of (last thenMlog)))] @
            thenMlog
          \<and> n' = Suc (Suc nc)
     else (\<exists>elseMlog nd.
            statementToMLOG c els options (Suc (Suc nc)) = Ok (elseMlog, nd) \<and>
            elseMlog \<noteq> [] \<and>
            prog = initMlog @ condMlog @
              [MLOGJump nc ''Jump to if block if true'' [Value ''equal'', condVar, Value ''1'']
                 (StatementJumpTarget False (ref_of (hd thenMlog))),
               MLOGJump (Suc nc) ''Jump to after if block'' [Value ''always'']
                 (StatementJumpTarget True nd)] @
              thenMlog @
              [MLOGJump nd ''Jump to after else block'' [Value ''always'']
                 (StatementJumpTarget True (ref_of (last elseMlog)))] @
              elseMlog
            \<and> n' = Suc nd))"
proof -
  from assms obtain initMlog na condVar condMlog nb thenMlog nc where
    init: "(if init \<noteq> NilStmt then statementToMLOG c init options n else Ok ([], n))
       = Ok (initMlog, na)"
    and cond: "ifCondition c cond options na = Ok (condVar, condMlog, nb)"
    and body: "statementToMLOG c (BlockStmt body) options nb = Ok (thenMlog, nc)"
    by (auto simp: andThen_eq_Ok simp del: statementToMLOG.simps(6) ifCondition.simps)
  have nonempty: "thenMlog \<noteq> []"
    using assms init cond body
    by (auto simp del: statementToMLOG.simps(6) ifCondition.simps split: if_split_asm)
  show ?thesis
  proof (cases "els = NilStmt")
    case True
    then show ?thesis
      using assms init cond body nonempty
      by (auto simp: Let_def hd_conv_nth last_conv_nth
               simp del: statementToMLOG.simps(6) ifCondition.simps)
  next
    case False
    with assms init cond body nonempty obtain elseMlog nd where
      els: "statementToMLOG c els options (Suc (Suc nc)) = Ok (elseMlog, nd)"
      by (auto simp: andThen_eq_Ok Let_def
               simp del: statementToMLOG.simps(6) ifCondition.simps)
    have nonemptyElse: "elseMlog \<noteq> []"
      using assms init cond body nonempty els False
      by (auto simp: Let_def simp del: statementToMLOG.simps(6) ifCondition.simps
               split: if_split_asm)
    have "statementToMLOG c (IfStmt init cond body els) options n =
       Ok (initMlog @ condMlog @
         [MLOGJump nc ''Jump to if block if true'' [Value ''equal'', condVar, Value ''1'']
            (StatementJumpTarget False (ref_of (hd thenMlog))),
          MLOGJump (Suc nc) ''Jump to after if block'' [Value ''always'']
            (StatementJumpTarget True nd)] @
         thenMlog @
         [MLOGJump nd ''Jump to after else block'' [Value ''always'']
            (StatementJumpTarget True (ref_of (last elseMlog)))] @
         elseMlog,
         Suc nd)"
      using False init cond body nonempty els nonemptyElse
        retarget_skip_jump [of "(initMlog @ condMlog) @
            [MLOGJump nc ''Jump to if block if true'' [Value ''equal'', condVar, Value ''1'']
               (StatementJumpTarget False (ref_of (hd thenMlog)))]"
          "Suc nc" "''Jump to after if block''" "[Value ''always'']" True
          "ref_of (last thenMlog)"
          "thenMlog @ [MLOGJump nd ''Jump to after else block'' [Value ''always'']
               (StatementJumpTarget True (ref_of (last elseMlog)))]" nd]
      by (simp del: statementToMLOG.simps(6) ifCondition.simps
            add: Let_def hd_conv_nth last_conv_nth)
    with assms False init cond body nonempty els nonemptyElse show ?thesis
      by (auto simp del: statementToMLOG.simps(6) ifCondition.simps)
  qed
qed


lemma ifCondition_fresh:
  assumes "\<And>dests e opts m prog m'.
      expressionToMLOG c dests e opts m = Ok (prog, m') \<Longrightarrow> freshIn m prog m'"
    and "ifCondition c cond options n = Ok (condVar, prog, n')"
  shows "freshIn n prog n'"
proof (cases "isIdent cond")
  case True
  then show ?thesis using assms(2) by (cases cond) (auto simp: freshIn_Nil)
next
  case False
  then have "expressionToMLOG c [DynamicVariable n] cond options (Suc n) = Ok (prog, n')"
    using assms(2) by (cases cond) (auto simp: andThen_eq_Ok Let_def)
  from assms(1) [OF this] show ?thesis by (rule freshIn_widen) simp_all
qed

lemma returnValueToMLOG_fresh:
  assumes "\<And>dests e opts m prog m'.
      expressionToMLOG c dests e opts m = Ok (prog, m') \<Longrightarrow> freshIn m prog m'"
    and "returnValueToMLOG c v options n = Ok (prog, n')"
  shows "freshIn n prog n'"
proof -
  from assms(2) obtain resultVar results k where
    val: "(case v of
          Ident name \<Rightarrow> Ok (NormalVariable name, [], n)
        | BasicLit v \<Rightarrow> Ok (Value v, [], n)
        | NilExpr \<Rightarrow> Err (UnknownReturnValueType (exprType v))
        | _ \<Rightarrow>
            (let dVar = DynamicVariable n in
             andThen (expressionToMLOG c [dVar] v options (Suc n))
               (\<lambda>(instructions, n'). Ok (dVar, instructions, n')))) = Ok (resultVar, results, k)"
    and prog: "prog = results @
      [MLOG k ''Set return data'' [[Value ''set'', Value (FunctionReturnVariable c), resultVar]]]"
    and n': "n' = Suc k"
    by (auto simp: andThen_eq_Ok)
  have "freshIn n results k"
  proof (cases "returnValueLowers c v options n \<and> \<not> isIdent v \<and> (\<forall>l. v \<noteq> BasicLit l)")
    case True
    then have "expressionToMLOG c [DynamicVariable n] v options (Suc n) = Ok (results, k)"
      using val by (cases v) (auto simp: andThen_eq_Ok Let_def)
    from assms(1) [OF this] show ?thesis by (rule freshIn_widen) simp_all
  next
    case False
    then show ?thesis
      using val by (cases v) (auto simp: andThen_eq_Ok Let_def freshIn_Nil split: result.splits)
  qed
  then show ?thesis
    unfolding prog n' by (rule freshIn_append) (simp add: freshIn_single)
qed

lemma assignLoop_fresh:
  assumes "\<And>dests e opts m prog m'.
      expressionToMLOG c dests e opts m = Ok (prog, m') \<Longrightarrow> freshIn m prog m'"
  shows "assignLoop c tok rhs options i lhs mlog n = Ok (prog, n') \<Longrightarrow>
         freshIn k mlog n \<Longrightarrow> freshIn k prog n'"
proof (induction lhs arbitrary: i mlog n)
  case Nil
  then show ?case by simp
next
  case (Cons d rest)
  show ?case
  proof (cases d)
    case (Ident name)
    with Cons.prems(1) obtain exprMLOG m where
      e: "expressionToMLOG c [NormalVariable name] (rhs ! i) options n = Ok (exprMLOG, m)"
      and r: "assignLoop c tok rhs options (Suc i) rest (mlog @ exprMLOG) m = Ok (prog, n')"
      by (auto simp: andThen_eq_Ok split: if_split_asm)
    have "freshIn k (mlog @ exprMLOG) m"
      using Cons.prems(2) assms [OF e] by (rule freshIn_append)
    with r show ?thesis by (rule Cons.IH)
  qed (use Cons.prems(1) in simp_all)
qed

lemma assignStmtToMLOG_fresh:
  assumes "\<And>dests e opts m prog m'.
      expressionToMLOG c dests e opts m = Ok (prog, m') \<Longrightarrow> freshIn m prog m'"
    and "assignStmtToMLOG c lhs tok rhs options n = Ok (prog, n')"
  shows "freshIn n prog n'"
proof (cases "length lhs = length rhs")
  case True
  with assms(2) have loop: "assignLoop c tok rhs options 0 lhs [] n = Ok (prog, n')" by simp
  have "freshIn n [] n" by (simp add: freshIn_Nil)
  with assms(1) loop show ?thesis by (rule assignLoop_fresh)
next
  case False
  with assms(2) obtain leftSide where
    "expressionToMLOG c leftSide (rhs ! 0) options n = Ok (prog, n')"
    by (auto simp: andThen_eq_Ok split: if_split_asm)
  then show ?thesis by (rule assms(1))
qed

lemma lowering_fresh:
  assumes "\<And>dests e opts m prog m'.
      expressionToMLOG c dests e opts m = Ok (prog, m') \<Longrightarrow> freshIn m prog m'"
  shows "statementToMLOG c s options n = Ok (prog, n') \<Longrightarrow> freshIn n prog n'"
    and "blockLoop c list options results n = Ok (prog, n') \<Longrightarrow>
         freshIn k results n \<Longrightarrow> freshIn k prog n'"
  using assms
proof (induction c s options n and c list options results n
       arbitrary: prog n' and prog n' k rule: statementToMLOG_blockLoop.induct)
  case (1 c init cond post body options n)
  show ?case
  proof (cases "body = []")
    case True
    with "1.prems"(1) show ?thesis by (simp add: freshIn_Nil)
  next
    case False
    from for_lowering_cases [OF "1.prems"(1) False]
    obtain initMlog na condition bodyMLOG nb postMlog where
      i: "statementToMLOG c init options n = Ok (initMlog, na)"
      and b: "statementToMLOG c (BlockStmt body) options (Suc na) = Ok (bodyMLOG, nb)"
      and p: "statementToMLOG c post options nb = Ok (postMlog, n')"
      and prog: "prog = initMlog @ bodyMLOG @ postMlog @
         [MLOGJump na ''Jump to start of loop'' condition
            (StatementTarget (ref_of (hd bodyMLOG)))]"
      by blast
    have nz: "length body \<noteq> 0" using False by simp
    have fi: "freshIn n initMlog na"
      by (rule "1.IH"(1) [OF nz i "1.prems"(2)])
    have fb: "freshIn (Suc na) bodyMLOG nb"
      by (rule "1.IH"(2) [OF nz refl refl b "1.prems"(2)])
    have fp: "freshIn nb postMlog n'"
      by (rule "1.IH"(3) [OF nz refl refl refl p "1.prems"(2)])
    have "freshIn na [MLOGJump na ''Jump to start of loop'' condition
            (StatementTarget (ref_of (hd bodyMLOG)))] (Suc na)"
      by (simp add: freshIn_single)
    moreover have "freshIn (Suc na) (bodyMLOG @ postMlog) n'"
      using fb fp by (rule freshIn_append)
    ultimately have "freshIn na ((bodyMLOG @ postMlog) @
         [MLOGJump na ''Jump to start of loop'' condition
            (StatementTarget (ref_of (hd bodyMLOG)))]) n'"
      by (rule freshIn_append_before)
    with fi have "freshIn n (initMlog @ (bodyMLOG @ postMlog) @
         [MLOGJump na ''Jump to start of loop'' condition
            (StatementTarget (ref_of (hd bodyMLOG)))]) n'"
      by (rule freshIn_append)
    then show ?thesis unfolding prog by simp
  qed
next
  case (2 c x options n)
  from "2.prems"(1) have "expressionToMLOG c [] x options n = Ok (prog, n')"
    by (auto simp: andThen_eq_Ok)
  then show ?case by (rule "2.prems"(2))
next
  case (3 c init cond body els options n)
  from if_lowering_cases [OF "3.prems"(1)]
  obtain initMlog na condVar condMlog nb thenMlog nc where
    i: "(if init \<noteq> NilStmt then statementToMLOG c init options n else Ok ([], n))
       = Ok (initMlog, na)"
    and cnd: "ifCondition c cond options na = Ok (condVar, condMlog, nb)"
    and b: "statementToMLOG c (BlockStmt body) options nb = Ok (thenMlog, nc)"
    and nonempty: "thenMlog \<noteq> []"
    and rest: "(if els = NilStmt
     then prog = initMlog @ condMlog @
            [MLOGJump nc ''Jump to if block if true'' [Value ''equal'', condVar, Value ''1'']
               (StatementJumpTarget False (ref_of (hd thenMlog))),
             MLOGJump (Suc nc) ''Jump to after if block'' [Value ''always'']
               (StatementJumpTarget True (ref_of (last thenMlog)))] @
            thenMlog
          \<and> n' = Suc (Suc nc)
     else (\<exists>elseMlog nd.
            statementToMLOG c els options (Suc (Suc nc)) = Ok (elseMlog, nd) \<and>
            elseMlog \<noteq> [] \<and>
            prog = initMlog @ condMlog @
              [MLOGJump nc ''Jump to if block if true'' [Value ''equal'', condVar, Value ''1'']
                 (StatementJumpTarget False (ref_of (hd thenMlog))),
               MLOGJump (Suc nc) ''Jump to after if block'' [Value ''always'']
                 (StatementJumpTarget True nd)] @
              thenMlog @
              [MLOGJump nd ''Jump to after else block'' [Value ''always'']
                 (StatementJumpTarget True (ref_of (last elseMlog)))] @
              elseMlog
            \<and> n' = Suc nd))"
    by blast
  have fi: "freshIn n initMlog na"
  proof (cases "init = NilStmt")
    case True
    with i show ?thesis by (simp add: freshIn_Nil)
  next
    case False
    with i have "statementToMLOG c init options n = Ok (initMlog, na)" by simp
    with False show ?thesis using "3.prems"(2) by (rule "3.IH"(1))
  qed
  have fc: "freshIn na condMlog nb"
    using "3.prems"(2) cnd by (rule ifCondition_fresh)
  have fb: "freshIn nb thenMlog nc"
    by (rule "3.IH"(2) [OF refl b "3.prems"(2)])
  have nn: "\<not> \<not> 0 < length thenMlog"
    using nonempty by simp
  show ?case
  proof (cases "els = NilStmt")
    case True
    with rest have prog: "prog = initMlog @ condMlog @
            [MLOGJump nc ''Jump to if block if true'' [Value ''equal'', condVar, Value ''1'']
               (StatementJumpTarget False (ref_of (hd thenMlog))),
             MLOGJump (Suc nc) ''Jump to after if block'' [Value ''always'']
               (StatementJumpTarget True (ref_of (last thenMlog)))] @
            thenMlog" and n': "n' = Suc (Suc nc)"
      by simp_all
    have "freshIn nc
        [MLOGJump nc ''Jump to if block if true'' [Value ''equal'', condVar, Value ''1'']
               (StatementJumpTarget False (ref_of (hd thenMlog))),
             MLOGJump (Suc nc) ''Jump to after if block'' [Value ''always'']
               (StatementJumpTarget True (ref_of (last thenMlog)))] (Suc (Suc nc))"
      by (simp add: freshIn_def)
    with fb have "freshIn nb
        ([MLOGJump nc ''Jump to if block if true'' [Value ''equal'', condVar, Value ''1'']
               (StatementJumpTarget False (ref_of (hd thenMlog))),
             MLOGJump (Suc nc) ''Jump to after if block'' [Value ''always'']
               (StatementJumpTarget True (ref_of (last thenMlog)))] @ thenMlog)
        (Suc (Suc nc))"
      by (rule freshIn_append_before)
    with fc have "freshIn na (condMlog @
        [MLOGJump nc ''Jump to if block if true'' [Value ''equal'', condVar, Value ''1'']
               (StatementJumpTarget False (ref_of (hd thenMlog))),
             MLOGJump (Suc nc) ''Jump to after if block'' [Value ''always'']
               (StatementJumpTarget True (ref_of (last thenMlog)))] @ thenMlog)
        (Suc (Suc nc))"
      by (rule freshIn_append)
    with fi show ?thesis
      unfolding prog n' by (rule freshIn_append)
  next
    case False
    with rest obtain elseMlog nd where
      e: "statementToMLOG c els options (Suc (Suc nc)) = Ok (elseMlog, nd)"
      and prog: "prog = initMlog @ condMlog @
              [MLOGJump nc ''Jump to if block if true'' [Value ''equal'', condVar, Value ''1'']
                 (StatementJumpTarget False (ref_of (hd thenMlog))),
               MLOGJump (Suc nc) ''Jump to after if block'' [Value ''always'']
                 (StatementJumpTarget True nd)] @
              thenMlog @
              [MLOGJump nd ''Jump to after else block'' [Value ''always'']
                 (StatementJumpTarget True (ref_of (last elseMlog)))] @
              elseMlog" and n': "n' = Suc nd"
      by auto
    have fe: "freshIn (Suc (Suc nc)) elseMlog nd"
      by (rule "3.IH"(3) [OF refl nn refl refl refl refl refl False e "3.prems"(2)])
    have "freshIn nd
        [MLOGJump nd ''Jump to after else block'' [Value ''always'']
                 (StatementJumpTarget True (ref_of (last elseMlog)))] (Suc nd)"
      by (simp add: freshIn_def)
    with fe have "freshIn (Suc (Suc nc))
        ([MLOGJump nd ''Jump to after else block'' [Value ''always'']
                 (StatementJumpTarget True (ref_of (last elseMlog)))] @ elseMlog) (Suc nd)"
      by (rule freshIn_append_before)
    moreover have "freshIn nc
        [MLOGJump nc ''Jump to if block if true'' [Value ''equal'', condVar, Value ''1'']
                 (StatementJumpTarget False (ref_of (hd thenMlog))),
               MLOGJump (Suc nc) ''Jump to after if block'' [Value ''always'']
                 (StatementJumpTarget True nd)] (Suc (Suc nc))"
      by (simp add: freshIn_def)
    with fb have "freshIn nb
        ([MLOGJump nc ''Jump to if block if true'' [Value ''equal'', condVar, Value ''1'']
                 (StatementJumpTarget False (ref_of (hd thenMlog))),
               MLOGJump (Suc nc) ''Jump to after if block'' [Value ''always'']
                 (StatementJumpTarget True nd)] @ thenMlog) (Suc (Suc nc))"
      by (rule freshIn_append_before)
    ultimately have "freshIn nb
        (([MLOGJump nc ''Jump to if block if true'' [Value ''equal'', condVar, Value ''1'']
                 (StatementJumpTarget False (ref_of (hd thenMlog))),
               MLOGJump (Suc nc) ''Jump to after if block'' [Value ''always'']
                 (StatementJumpTarget True nd)] @ thenMlog) @
         [MLOGJump nd ''Jump to after else block'' [Value ''always'']
                 (StatementJumpTarget True (ref_of (last elseMlog)))] @ elseMlog) (Suc nd)"
      by (rule freshIn_append [rotated])
    with fc have "freshIn na (condMlog @
        ([MLOGJump nc ''Jump to if block if true'' [Value ''equal'', condVar, Value ''1'']
                 (StatementJumpTarget False (ref_of (hd thenMlog))),
               MLOGJump (Suc nc) ''Jump to after if block'' [Value ''always'']
                 (StatementJumpTarget True nd)] @ thenMlog) @
         [MLOGJump nd ''Jump to after else block'' [Value ''always'']
                 (StatementJumpTarget True (ref_of (last elseMlog)))] @ elseMlog) (Suc nd)"
      by (rule freshIn_append)
    with fi have "freshIn n (initMlog @ condMlog @
        ([MLOGJump nc ''Jump to if block if true'' [Value ''equal'', condVar, Value ''1'']
                 (StatementJumpTarget False (ref_of (hd thenMlog))),
               MLOGJump (Suc nc) ''Jump to after if block'' [Value ''always'']
                 (StatementJumpTarget True nd)] @ thenMlog) @
         [MLOGJump nd ''Jump to after else block'' [Value ''always'']
                 (StatementJumpTarget True (ref_of (last elseMlog)))] @ elseMlog) (Suc nd)"
      by (rule freshIn_append)
    then show ?thesis
      unfolding prog n' by simp
  qed
next
  case (4 c lhs tok rhs options n)
  from "4.prems"(1) have "assignStmtToMLOG c lhs tok rhs options n = Ok (prog, n')"
    by (auto simp: andThen_eq_Ok simp del: assignStmtToMLOG.simps)
  with "4.prems"(2) show ?case by (rule assignStmtToMLOG_fresh)
next
  case (5 c returnResults options n)
  show ?case
  proof (cases "0 < length returnResults")
    case False
    with "5.prems"(1) show ?thesis by (auto simp: freshIn_single)
  next
    case True
    with "5.prems"(1) obtain results k where
      v: "returnValueToMLOG c (returnResults ! 0) options n = Ok (results, k)"
      and prog: "prog = results @ [MLOGTrampolineBack k]" and n': "n' = Suc k"
      by (auto simp: andThen_eq_Ok simp del: returnValueToMLOG.simps split: if_split_asm)
    from "5.prems"(2) v have "freshIn n results k" by (rule returnValueToMLOG_fresh)
    then show ?thesis
      unfolding prog n' by (rule freshIn_append) (simp add: freshIn_single)
  qed
next
  case (6 c list options n)
  from "6.prems"(1) have "blockLoop c list options [] n = Ok (prog, n')" by simp
  moreover have "freshIn n [] n" by (simp add: freshIn_Nil)
  ultimately show ?case using "6.prems"(2) by (rule "6.IH")
next
  case (7 c x tok options n)
  from "7.prems"(1) show ?case by (cases x) (auto simp: Let_def freshIn_single)
next
  case (8 c options n)
  from "8.prems"(1) show ?case by simp
next
  case (9 c t options n)
  from "9.prems"(1) show ?case by simp
next
  case (10 c options results n)
  from "10.prems"(1,2) show ?case by simp
next
  case (11 c s rest options results n)
  from "11.prems"(1) obtain instructions m where
    s: "statementToMLOG c s options n = Ok (instructions, m)"
    and r: "blockLoop c rest options (results @ instructions) m = Ok (prog, n')"
    by (auto simp: andThen_eq_Ok)
  have "freshIn n instructions m" using s "11.prems"(3) by (rule "11.IH"(1))
  with "11.prems"(2) have "freshIn k (results @ instructions) m" by (rule freshIn_append)
  with r show ?case using "11.prems"(3) by (rule "11.IH"(2))
qed


section \<open>Where the jumps land\<close>

text \<open>
  Under the linearization the specification describes (\<open>resolve\<close>, \<open>positionOf\<close>),
  and with rows known for the instructions in front of a target, the symbolic targets
  resolve as follows. In a conditional with an else branch the first jump lands on the
  first row of the then block, the skip jump on the first row of the else block, and
  the jump behind the then block on the row after the whole conditional. Without an
  else branch the skip jump lands on the row after the conditional. The jump that
  closes a loop lands on the first row of the body, which lies before the jump.
\<close>

lemma freshIn_notin:
  "freshIn n prog n' \<Longrightarrow> r < n \<or> n' \<le> r \<Longrightarrow> r \<notin> ref_of ` set prog"
  by (auto simp: freshIn_def list_all_iff)

lemma outputRows_append:
  "outputRows (xs @ ys) =
     (case outputRows xs of
        None \<Rightarrow> None
      | Some k \<Rightarrow> (case outputRows ys of None \<Rightarrow> None | Some m \<Rightarrow> Some (k + m)))"
  by (induction xs) (auto split: option.splits)

lemma positionOf_skip:
  "outputRows pre = Some k \<Longrightarrow> r \<notin> ref_of ` set pre \<Longrightarrow>
   positionOf base (pre @ rest) r = positionOf (base + k) rest r"
proof (induction pre arbitrary: base k)
  case Nil
  then show ?case by simp
next
  case (Cons s pre)
  from Cons.prems(1) obtain j m where
    s: "Size s = Some j" and m: "outputRows pre = Some m" and k: "k = j + m"
    by (auto split: option.splits)
  from Cons.prems(2) have "ref_of s \<noteq> r" and "r \<notin> ref_of ` set pre" by auto
  with Cons.IH [OF m, of "base + j"] s k show ?case by (simp add: add.assoc)
qed

lemma resolve_skip:
  "outputRows pre = Some k \<Longrightarrow> targetRef t \<notin> ref_of ` set pre \<Longrightarrow>
   resolve base (pre @ rest) t = resolve (base + k) rest t"
  by (cases t) (simp_all add: positionOf_skip)

lemma resolve_first:
  "xs \<noteq> [] \<Longrightarrow>
   resolve base (xs @ rest) (StatementJumpTarget False (ref_of (hd xs))) = Some base \<and>
   resolve base (xs @ rest) (StatementTarget (ref_of (hd xs))) = Some base"
  by (cases xs) simp_all

lemma resolve_after_last:
  "xs \<noteq> [] \<Longrightarrow> distinct (map ref_of xs) \<Longrightarrow> outputRows xs = Some e \<Longrightarrow>
   resolve base (xs @ rest) (StatementJumpTarget True (ref_of (last xs))) = Some (base + e)"
proof (induction xs arbitrary: base e)
  case Nil
  then show ?case by simp
next
  case (Cons s xs)
  from Cons.prems(3) obtain j m where
    s: "Size s = Some j" and m: "outputRows xs = Some m" and e: "e = j + m"
    by (auto split: option.splits)
  show ?case
  proof (cases "xs = []")
    case True
    with s m e show ?thesis by simp
  next
    case False
    with Cons.prems(2) have "ref_of s \<noteq> ref_of (last xs)" and "distinct (map ref_of xs)"
      by auto
    with Cons.IH [OF False _ m, of "base + j"] False s e show ?thesis
      by (simp add: add.assoc)
  qed
qed


lemma if_parts_fresh:
  assumes "\<And>dests e opts m prog m'.
      expressionToMLOG c dests e opts m = Ok (prog, m') \<Longrightarrow> freshIn m prog m'"
    and "(if init \<noteq> NilStmt then statementToMLOG c init options n else Ok ([], n))
           = Ok (initMlog, na)"
    and "ifCondition c cond options na = Ok (condVar, condMlog, nb)"
    and "statementToMLOG c (BlockStmt body) options nb = Ok (thenMlog, nc)"
  shows "freshIn n (initMlog @ condMlog) nb" and "freshIn nb thenMlog nc"
proof -
  have "freshIn n initMlog na"
  proof (cases "init = NilStmt")
    case True
    with assms(2) show ?thesis by (simp add: freshIn_Nil)
  next
    case False
    with assms(2) have "statementToMLOG c init options n = Ok (initMlog, na)" by simp
    with assms(1) show ?thesis by (rule lowering_fresh(1))
  qed
  moreover have "freshIn na condMlog nb"
    using assms(1,3) by (rule ifCondition_fresh)
  ultimately show "freshIn n (initMlog @ condMlog) nb" by (rule freshIn_append)
  show "freshIn nb thenMlog nc"
    using assms(1,4) by (rule lowering_fresh(1))
qed

lemma if_else_addresses:
  assumes "\<And>dests e opts m prog m'.
      expressionToMLOG c dests e opts m = Ok (prog, m') \<Longrightarrow> freshIn m prog m'"
    and "(if init \<noteq> NilStmt then statementToMLOG c init options n else Ok ([], n))
           = Ok (initMlog, na)"
    and "ifCondition c cond options na = Ok (condVar, condMlog, nb)"
    and "statementToMLOG c (BlockStmt body) options nb = Ok (thenMlog, nc)"
    and "thenMlog \<noteq> []"
    and "statementToMLOG c els options (Suc (Suc nc)) = Ok (elseMlog, nd)"
    and "elseMlog \<noteq> []"
    and "outputRows (initMlog @ condMlog) = Some ra"
    and "outputRows thenMlog = Some rt"
    and "outputRows elseMlog = Some re"
  defines "prog \<equiv> (initMlog @ condMlog) @
         [MLOGJump nc ''Jump to if block if true'' [Value ''equal'', condVar, Value ''1'']
            (StatementJumpTarget False (ref_of (hd thenMlog))),
          MLOGJump (Suc nc) ''Jump to after if block'' [Value ''always'']
            (StatementJumpTarget True nd)] @
         thenMlog @
         [MLOGJump nd ''Jump to after else block'' [Value ''always'']
            (StatementJumpTarget True (ref_of (last elseMlog)))] @
         elseMlog"
  shows "resolve base prog (StatementJumpTarget False (ref_of (hd thenMlog)))
           = Some (base + ra + 2)"
    and "resolve base prog (StatementJumpTarget True nd) = Some (base + ra + 2 + rt + 1)"
    and "positionOf base prog (ref_of (hd elseMlog))
           = Some (base + ra + 2 + rt + 1, hd elseMlog)"
    and "resolve base prog (StatementJumpTarget True (ref_of (last elseMlog)))
           = Some (base + ra + 2 + rt + 1 + re)"
    and "outputRows prog = Some (ra + 2 + rt + 1 + re)"
proof -
  let ?jumps = "[MLOGJump nc ''Jump to if block if true'' [Value ''equal'', condVar, Value ''1'']
            (StatementJumpTarget False (ref_of (hd thenMlog))),
          MLOGJump (Suc nc) ''Jump to after if block'' [Value ''always'']
            (StatementJumpTarget True nd)]"
  let ?afterElse = "[MLOGJump nd ''Jump to after else block'' [Value ''always'']
            (StatementJumpTarget True (ref_of (last elseMlog)))]"
  have fpre: "freshIn n (initMlog @ condMlog) nb" and fthen: "freshIn nb thenMlog nc"
    using if_parts_fresh [OF assms(1-4)] by simp_all
  have felse: "freshIn (Suc (Suc nc)) elseMlog nd"
    using assms(1,6) by (rule lowering_fresh(1))
  have order: "nb \<le> nc" "Suc (Suc nc) \<le> nd"
    using fthen felse by (simp_all add: freshIn_def)
  have hdThen: "nb \<le> ref_of (hd thenMlog)" "ref_of (hd thenMlog) < nc"
    using fthen assms(5) by (auto simp: freshIn_def list_all_iff)
  have hdElse: "Suc (Suc nc) \<le> ref_of (hd elseMlog)" "ref_of (hd elseMlog) < nd"
    using felse assms(7) by (auto simp: freshIn_def list_all_iff)
  have lastElse: "Suc (Suc nc) \<le> ref_of (last elseMlog)" "ref_of (last elseMlog) < nd"
    using felse assms(7) by (auto simp: freshIn_def list_all_iff)
  have overPre: "resolve base prog t = resolve (base + ra) (?jumps @ thenMlog @ ?afterElse @ elseMlog) t"
    if "nb \<le> targetRef t" for t
    unfolding prog_def using assms(8) freshIn_notin [OF fpre, of "targetRef t"] that
    by (intro resolve_skip) simp_all
  have overJumps: "resolve (base + ra) (?jumps @ thenMlog @ ?afterElse @ elseMlog) t
      = resolve (base + ra + 2) (thenMlog @ ?afterElse @ elseMlog) t"
    if "targetRef t \<noteq> nc" "targetRef t \<noteq> Suc nc" for t
    using that by (intro resolve_skip) simp_all
  have overThen: "resolve (base + ra + 2) (thenMlog @ ?afterElse @ elseMlog) t
      = resolve (base + ra + 2 + rt) (?afterElse @ elseMlog) t"
    if "nc \<le> targetRef t" for t
    using assms(9) freshIn_notin [OF fthen, of "targetRef t"] that
    by (intro resolve_skip) simp_all
  show "resolve base prog (StatementJumpTarget False (ref_of (hd thenMlog)))
           = Some (base + ra + 2)"
    using overPre [of "StatementJumpTarget False (ref_of (hd thenMlog))"]
      overJumps [of "StatementJumpTarget False (ref_of (hd thenMlog))"]
      resolve_first [OF assms(5), of "base + ra + 2" "?afterElse @ elseMlog"] hdThen
    by simp
  show "resolve base prog (StatementJumpTarget True nd) = Some (base + ra + 2 + rt + 1)"
    using overPre [of "StatementJumpTarget True nd"]
      overJumps [of "StatementJumpTarget True nd"]
      overThen [of "StatementJumpTarget True nd"] order
    by simp
  have posElse: "positionOf base prog r = positionOf (base + ra + 2 + rt + 1) elseMlog r"
    if "Suc (Suc nc) \<le> r" "r < nd" for r
  proof -
    have "positionOf base prog r
        = positionOf (base + ra) (?jumps @ thenMlog @ ?afterElse @ elseMlog) r"
      unfolding prog_def using assms(8) freshIn_notin [OF fpre, of r] that order
      by (intro positionOf_skip) simp_all
    also have "\<dots> = positionOf (base + ra + 2) (thenMlog @ ?afterElse @ elseMlog) r"
      using that by simp
    also have "\<dots> = positionOf (base + ra + 2 + rt) (?afterElse @ elseMlog) r"
      using assms(9) freshIn_notin [OF fthen, of r] that
      by (intro positionOf_skip) simp_all
    also have "\<dots> = positionOf (base + ra + 2 + rt + 1) elseMlog r"
      using that by simp
    finally show ?thesis .
  qed
  show "positionOf base prog (ref_of (hd elseMlog))
           = Some (base + ra + 2 + rt + 1, hd elseMlog)"
    using posElse [OF hdElse] assms(7) by (cases elseMlog) simp_all
  have "resolve base prog (StatementJumpTarget True (ref_of (last elseMlog)))
      = resolve (base + ra + 2 + rt + 1) (elseMlog @ [])
          (StatementJumpTarget True (ref_of (last elseMlog)))"
    using posElse [OF lastElse] by simp
  also have "\<dots> = Some (base + ra + 2 + rt + 1 + re)"
    using assms(7) felse assms(10) by (intro resolve_after_last) (simp_all add: freshIn_def)
  finally show "resolve base prog (StatementJumpTarget True (ref_of (last elseMlog)))
           = Some (base + ra + 2 + rt + 1 + re)" .
  have "outputRows (thenMlog @ ?afterElse @ elseMlog) = Some (rt + (1 + re))"
    using outputRows_append [of thenMlog "?afterElse @ elseMlog"] assms(9,10) by simp
  then have "outputRows (?jumps @ thenMlog @ ?afterElse @ elseMlog) = Some (2 + (rt + (1 + re)))"
    by simp
  then show "outputRows prog = Some (ra + 2 + rt + 1 + re)"
    unfolding prog_def
    using outputRows_append [of "initMlog @ condMlog" "?jumps @ thenMlog @ ?afterElse @ elseMlog"]
      assms(8)
    by simp
qed


lemma if_without_else_lowering:
  assumes "(if init \<noteq> NilStmt then statementToMLOG c init options n else Ok ([], n))
           = Ok (initMlog, na)"
    and "ifCondition c cond options na = Ok (condVar, condMlog, nb)"
    and "statementToMLOG c (BlockStmt body) options nb = Ok (thenMlog, nc)"
    and "thenMlog \<noteq> []"
  shows "statementToMLOG c (IfStmt init cond body NilStmt) options n =
     Ok (initMlog @ condMlog @
         [MLOGJump nc ''Jump to if block if true'' [Value ''equal'', condVar, Value ''1'']
            (StatementJumpTarget False (ref_of (hd thenMlog))),
          MLOGJump (Suc nc) ''Jump to after if block'' [Value ''always'']
            (StatementJumpTarget True (ref_of (last thenMlog)))] @
         thenMlog,
         Suc (Suc nc))"
  using assms
  by (simp del: statementToMLOG.simps(6) ifCondition.simps
        add: Let_def hd_conv_nth last_conv_nth)

lemma if_without_else_addresses:
  assumes "\<And>dests e opts m prog m'.
      expressionToMLOG c dests e opts m = Ok (prog, m') \<Longrightarrow> freshIn m prog m'"
    and "(if init \<noteq> NilStmt then statementToMLOG c init options n else Ok ([], n))
           = Ok (initMlog, na)"
    and "ifCondition c cond options na = Ok (condVar, condMlog, nb)"
    and "statementToMLOG c (BlockStmt body) options nb = Ok (thenMlog, nc)"
    and "thenMlog \<noteq> []"
    and "outputRows (initMlog @ condMlog) = Some ra"
    and "outputRows thenMlog = Some rt"
  defines "prog \<equiv> (initMlog @ condMlog) @
         [MLOGJump nc ''Jump to if block if true'' [Value ''equal'', condVar, Value ''1'']
            (StatementJumpTarget False (ref_of (hd thenMlog))),
          MLOGJump (Suc nc) ''Jump to after if block'' [Value ''always'']
            (StatementJumpTarget True (ref_of (last thenMlog)))] @
         thenMlog"
  shows "resolve base prog (StatementJumpTarget False (ref_of (hd thenMlog)))
           = Some (base + ra + 2)"
    and "resolve base prog (StatementJumpTarget True (ref_of (last thenMlog)))
           = Some (base + ra + 2 + rt)"
    and "outputRows prog = Some (ra + 2 + rt)"
proof -
  let ?jumps = "[MLOGJump nc ''Jump to if block if true'' [Value ''equal'', condVar, Value ''1'']
            (StatementJumpTarget False (ref_of (hd thenMlog))),
          MLOGJump (Suc nc) ''Jump to after if block'' [Value ''always'']
            (StatementJumpTarget True (ref_of (last thenMlog)))]"
  have fpre: "freshIn n (initMlog @ condMlog) nb" and fthen: "freshIn nb thenMlog nc"
    using if_parts_fresh [OF assms(1-4)] by simp_all
  have inThen: "nb \<le> ref_of s \<and> ref_of s < nc" if "s \<in> set thenMlog" for s
    using fthen that by (auto simp: freshIn_def list_all_iff)
  have toThen: "resolve base prog t = resolve (base + ra + 2) (thenMlog @ []) t"
    if "nb \<le> targetRef t" "targetRef t < nc" for t
  proof -
    have "resolve base prog t = resolve (base + ra) (?jumps @ thenMlog) t"
      unfolding prog_def using assms(6) freshIn_notin [OF fpre, of "targetRef t"] that
      by (intro resolve_skip) simp_all
    also have "\<dots> = resolve (base + ra + 2) thenMlog t"
      using that resolve_skip [of ?jumps 2 t "base + ra" thenMlog] by simp
    finally show ?thesis by simp
  qed
  show "resolve base prog (StatementJumpTarget False (ref_of (hd thenMlog)))
           = Some (base + ra + 2)"
    using toThen [of "StatementJumpTarget False (ref_of (hd thenMlog))"]
      inThen [of "hd thenMlog"] assms(5) resolve_first [OF assms(5), of "base + ra + 2" "[]"]
    by simp
  show "resolve base prog (StatementJumpTarget True (ref_of (last thenMlog)))
           = Some (base + ra + 2 + rt)"
    using toThen [of "StatementJumpTarget True (ref_of (last thenMlog))"]
      inThen [of "last thenMlog"] assms(5) fthen
      resolve_after_last [OF assms(5) _ assms(7), of "base + ra + 2" "[]"]
    by (simp add: freshIn_def)
  show "outputRows prog = Some (ra + 2 + rt)"
    unfolding prog_def
    using outputRows_append [of "initMlog @ condMlog" "?jumps @ thenMlog"] assms(6,7)
    by simp
qed

lemma for_jump_address:
  fixes condition :: "resolvable list"
  assumes "\<And>dests e opts m prog m'.
      expressionToMLOG c dests e opts m = Ok (prog, m') \<Longrightarrow> freshIn m prog m'"
    and "statementToMLOG c init options n = Ok (initMlog, na)"
    and "statementToMLOG c (BlockStmt body) options (Suc na) = Ok (bodyMLOG, nb)"
    and "bodyMLOG \<noteq> []"
    and "statementToMLOG c post options nb = Ok (postMlog, nc)"
    and "outputRows initMlog = Some ri"
    and "outputRows bodyMLOG = Some rb"
    and "outputRows postMlog = Some rp"
  defines "jump \<equiv> MLOGJump na ''Jump to start of loop'' condition
            (StatementTarget (ref_of (hd bodyMLOG)))"
  shows "resolve base (initMlog @ bodyMLOG @ postMlog @ [jump])
           (StatementTarget (ref_of (hd bodyMLOG))) = Some (base + ri)"
    and "positionOf base (initMlog @ bodyMLOG @ postMlog @ [jump]) na
           = Some (base + ri + rb + rp, jump)"
proof -
  have fi: "freshIn n initMlog na"
    using assms(1,2) by (rule lowering_fresh(1))
  have fb: "freshIn (Suc na) bodyMLOG nb"
    using assms(1,3) by (rule lowering_fresh(1))
  have fp: "freshIn nb postMlog nc"
    using assms(1,5) by (rule lowering_fresh(1))
  have hdBody: "Suc na \<le> ref_of (hd bodyMLOG)"
    using fb assms(4) by (auto simp: freshIn_def list_all_iff)
  have "resolve base (initMlog @ bodyMLOG @ postMlog @ [jump])
           (StatementTarget (ref_of (hd bodyMLOG)))
        = resolve (base + ri) (bodyMLOG @ postMlog @ [jump])
           (StatementTarget (ref_of (hd bodyMLOG)))"
    using assms(6) freshIn_notin [OF fi, of "ref_of (hd bodyMLOG)"] hdBody
    by (intro resolve_skip) simp_all
  then show "resolve base (initMlog @ bodyMLOG @ postMlog @ [jump])
           (StatementTarget (ref_of (hd bodyMLOG))) = Some (base + ri)"
    using resolve_first [OF assms(4), of "base + ri" "postMlog @ [jump]"] by simp
  have "nb \<le> nc" "Suc na \<le> nb"
    using fp fb by (simp_all add: freshIn_def)
  have "positionOf base (initMlog @ bodyMLOG @ postMlog @ [jump]) na
      = positionOf (base + ri) (bodyMLOG @ postMlog @ [jump]) na"
    using assms(6) freshIn_notin [OF fi, of na] by (intro positionOf_skip) simp_all
  also have "\<dots> = positionOf (base + ri + rb) (postMlog @ [jump]) na"
    using assms(7) freshIn_notin [OF fb, of na] by (intro positionOf_skip) simp_all
  also have "\<dots> = positionOf (base + ri + rb + rp) [jump] na"
    using assms(8) freshIn_notin [OF fp, of na] \<open>Suc na \<le> nb\<close>
    by (intro positionOf_skip) simp_all
  finally show "positionOf base (initMlog @ bodyMLOG @ postMlog @ [jump]) na
           = Some (base + ri + rb + rp, jump)"
    by (simp add: jump_def)
qed

end
